theory Spec2Isabelle
  imports Main
begin

section \<open>The release-publishing script \<^verbatim>\<open>tools/release/publish-release.ts\<close>\<close>

text \<open>
  The script is one sequential workflow over external collaborators (git, gulp, npm,
  interactive prompts). The embedding makes its effects explicit:
  \<^item> every call to a collaborator and every console line is an \<open>event\<close>, recorded in
    the order in which the code performs it, together with the value the call returned;
  \<^item> \<^verbatim>\<open>process.exit(code)\<close> and an uncaught exception are values of the type \<open>abort\<close>:
    a step that aborts returns \<open>Inl\<close> and nothing after it runs;
  \<^item> what the collaborators answer in one run is a record \<open>world\<close>, a parameter of
    every function.
\<close>

subsection \<open>Data\<close>

text \<open>
  Modelled from the spec: the class \<^verbatim>\<open>Version\<close> of \<^verbatim>\<open>./version-name/parse-version\<close> is
  imported by the script and is not part of the sources at hand. The spec's data model
  gives it a major, minor and patch number and an optional pre-release label.
\<close>

record Version =
  major :: nat
  minor :: nat
  patch :: nat
  prereleaseLabel :: "string option"

text \<open>
  JavaScript truthiness of a value of type \<^verbatim>\<open>string | null\<close>: \<^verbatim>\<open>null\<close> and the empty
  string are falsy, every other string is truthy.
\<close>

fun truthy :: "string option \<Rightarrow> bool" where
  "truthy None = False"
| "truthy (Some s) = (s \<noteq> [])"

text \<open>The console lines of the script, one constructor per message of the source.\<close>

datatype message =
    Blank
  | CannotParseCurrentVersion string
  | BannerRule
  | BannerTitle
  | BuiltReleaseOutput
  | ReleaseOutputPassedValidation
  | CreatedReleaseTag string
  | PublishedAllPackages
  | PleasePushTagAndDraftRelease
  | GithubReleasesUrl string
  | LastCommitNotVersionBump
  | PleaseUseStagingScript
  | ReleaseOutputFailsValidation
  | AbortingPublish
  | NpmIsAuthenticated
  | NpmNotAuthenticatedRunningLogin
  | CouldNotAuthenticateTryAgain
  | CouldNotAuthenticateAfterTries nat
  | SuccessfullyAuthenticatedNpm
  | Publishing string
  | ErrorWhilePublishing string
  | PleaseCheckTerminalOutput
  | ErrorOutput "string option"
  | SuccessfullyPublished string

datatype level = Log | Info | Error

text \<open>
  The calls the script makes, each with its arguments and, last, the value it returned.
\<close>

datatype event =
    Console level message
  | ReadFileSync string
  | HasUncommittedChanges bool
  | CheckoutBranch string bool
  | GetCommitTitle string string
  | CompareWithUpstream string bool
  | PromptForNpmDistTag Version string
  | PromptConfirm string bool
  | ExecSync string string bool
  | CheckReleasePackage string string bool
  | CreateTag string string string
  | IsNpmAuthenticated bool
  | RunInteractiveNpmLogin bool
  | RunNpmPublish string string "string option"

text \<open>
  How the process ends before \<^verbatim>\<open>run\<close> returns: \<^verbatim>\<open>process.exit(code)\<close>, an exception that
  nothing catches, or the rejection of the promise of the \<^verbatim>\<open>async\<close> method \<^verbatim>\<open>run\<close>, which
  nothing handles.
\<close>

datatype abort = Exit nat | Uncaught | Rejected

text \<open>
  What the collaborators of one run answer. \<open>runInteractiveNpmLogin w i\<close> is the result of
  the invocation number \<open>i\<close> (from 0) of \<^verbatim>\<open>runInteractiveNpmLogin()\<close>; \<open>execSync w cmd cwd\<close> says
  whether the child process ends with status 0 (\<^verbatim>\<open>execSync\<close> throws otherwise);
  \<open>packageJsonVersion w path\<close> is the \<^verbatim>\<open>version\<close> field of the manifest at \<open>path\<close>, and \<open>None\<close>
  when \<^verbatim>\<open>readFileSync\<close> or \<^verbatim>\<open>JSON.parse\<close> throws; every other collaborator is taken to return
  a value of its type. The constant list \<^verbatim>\<open>releasePackages\<close>, \<^verbatim>\<open>path.join\<close>,
  \<^verbatim>\<open>Version.format\<close> and \<^verbatim>\<open>getGithubReleasesUrl\<close> are imported by the script and are
  parameters here.

  The script sets no exit code on the paths on which it does not call \<^verbatim>\<open>process.exit\<close>: the
  status of a process that dies of an uncaught exception, and of one whose rejected
  promise has no handler, is the one the Node runtime gives it (for the rejection, 0 with
  a warning on the older runtimes and 1 on the newer ones). Both are parameters of the
  world.
\<close>

record world =
  dirname :: string
  join_path :: "string \<Rightarrow> string \<Rightarrow> string"
  packageJsonVersion :: "string \<Rightarrow> string option"
  parseVersionName :: "string \<Rightarrow> Version option"
  format :: "Version \<Rightarrow> string"
  uncommittedChanges :: bool
  publishBranchOf :: "Version \<Rightarrow> string"
  checkoutBranch :: "string \<Rightarrow> bool"
  getCommitTitle :: "string \<Rightarrow> string"
  matchesUpstream :: "string \<Rightarrow> bool"
  distTagAnswer :: "Version \<Rightarrow> string"
  confirmAnswer :: "string \<Rightarrow> bool"
  execSync :: "string \<Rightarrow> string \<Rightarrow> bool"
  checkReleasePackage :: "string \<Rightarrow> string \<Rightarrow> bool"
  isNpmAuthenticated :: bool
  runInteractiveNpmLogin :: "nat \<Rightarrow> bool"
  runNpmPublish :: "string \<Rightarrow> string \<Rightarrow> string option"
  releasePackages :: "string list"
  getGithubReleasesUrl :: "string \<Rightarrow> string \<Rightarrow> string"
  uncaughtExceptionStatus :: nat
  unhandledRejectionStatus :: nat

subsection \<open>Steps\<close>

text \<open>
  A step returns the events it performed and either the abort that ended the process or
  its result.
\<close>

type_synonym 'a step = "event list \<times> (abort + 'a)"

definition done_with :: "'a \<Rightarrow> 'a step" where
  "done_with x = ([], Inr x)"

definition emit :: "event \<Rightarrow> unit step" where
  "emit ev = ([ev], Inr ())"

definition processExit :: "nat \<Rightarrow> 'a step" where
  "processExit code = ([], Inl (Exit code))"

definition throw :: "'a step" where
  "throw = ([], Inl Uncaught)"

definition andThen :: "'a step \<Rightarrow> ('a \<Rightarrow> 'b step) \<Rightarrow> 'b step" where
  "andThen m f =
     (case snd m of
        Inl a \<Rightarrow> (fst m, Inl a)
      | Inr x \<Rightarrow> (fst m @ fst (f x), snd (f x)))"

definition next_do :: "unit step \<Rightarrow> 'b step \<Rightarrow> 'b step" where
  "next_do m n = andThen m (\<lambda>_. n)"

text \<open>
  An \<^verbatim>\<open>async\<close> method returns a promise: an exception thrown in its body rejects the
  promise instead of leaving the method.
\<close>

definition async :: "'a step \<Rightarrow> 'a step" where
  "async m =
     (fst m, case snd m of Inl Uncaught \<Rightarrow> Inl Rejected | outcome \<Rightarrow> outcome)"


subsection \<open>The task\<close>

text \<open>\<^verbatim>\<open>const MAX_NPM_LOGIN_TRIES = 2;\<close>\<close>

definition MAX_NPM_LOGIN_TRIES :: nat where
  "MAX_NPM_LOGIN_TRIES = 2"

record PublishReleaseTask =
  projectDir :: string
  repositoryOwner :: string
  repositoryName :: string
  packageJsonPath :: string
  packageJson_version :: string
  currentVersion :: Version
  releaseOutputPath :: string

text \<open>
  The constructor: reads \<^verbatim>\<open>package.json\<close> (\<^verbatim>\<open>readFileSync\<close> and \<^verbatim>\<open>JSON.parse\<close> throw when the
  file is missing or is no JSON), parses its version and exits with code 1 when
  \<^verbatim>\<open>parseVersionName\<close> returns a falsy value (\<^verbatim>\<open>null\<close>; a \<^verbatim>\<open>Version\<close> object is truthy).
\<close>

definition new_PublishReleaseTask ::
  "world \<Rightarrow> string \<Rightarrow> string \<Rightarrow> string \<Rightarrow> PublishReleaseTask step" where
  "new_PublishReleaseTask w dir owner name =
     (let pjPath = join_path w dir ''package.json'';
          outPath = join_path w dir ''dist/releases''
      in next_do (emit (ReadFileSync pjPath))
          (case packageJsonVersion w pjPath of
             None \<Rightarrow> throw
           | Some ver \<Rightarrow>
               (case parseVersionName w ver of
                  None \<Rightarrow>
                    next_do (emit (Console Error (CannotParseCurrentVersion ver)))
                      (processExit 1)
                | Some v \<Rightarrow>
                    done_with \<lparr> projectDir = dir, repositoryOwner = owner,
                      repositoryName = name, packageJsonPath = pjPath,
                      packageJson_version = ver, currentVersion = v,
                      releaseOutputPath = outPath \<rparr>)))"

subsection \<open>Methods of the base class\<close>

text \<open>
  Modelled from the spec: \<^verbatim>\<open>verifyNoUncommittedChanges\<close> is a method of \<^verbatim>\<open>BaseReleaseTask\<close>
  (\<^verbatim>\<open>./base-release-task\<close>), which is not part of the sources at hand. The spec: the check
  "fails (terminates) if the working tree is dirty", with exit code 1 "for any
  verification/build/publish failure".
\<close>

definition verifyNoUncommittedChanges :: "world \<Rightarrow> unit step" where
  "verifyNoUncommittedChanges w =
     next_do (emit (HasUncommittedChanges (uncommittedChanges w)))
       (if uncommittedChanges w then processExit 1 else done_with ())"

text \<open>
  Modelled from the spec: \<^verbatim>\<open>switchToPublishBranch\<close> is a method of \<^verbatim>\<open>BaseReleaseTask\<close>, which
  is not part of the sources at hand. The spec: "deterministic target branch name derived
  from the version; fails if the collaborator cannot switch".
\<close>

definition switchToPublishBranch :: "world \<Rightarrow> Version \<Rightarrow> string step" where
  "switchToPublishBranch w v =
     (let branch = publishBranchOf w v
      in next_do (emit (CheckoutBranch branch (checkoutBranch w branch)))
           (if checkoutBranch w branch then done_with branch else processExit 1))"

text \<open>
  Modelled from the spec: \<^verbatim>\<open>verifyLocalCommitsMatchUpstream\<close> is a method of
  \<^verbatim>\<open>BaseReleaseTask\<close>, which is not part of the sources at hand. The spec: the check "fails
  if local commits diverge from the corresponding remote branch".
\<close>

definition verifyLocalCommitsMatchUpstream :: "world \<Rightarrow> string \<Rightarrow> unit step" where
  "verifyLocalCommitsMatchUpstream w publishBranch =
     next_do (emit (CompareWithUpstream publishBranch (matchesUpstream w publishBranch)))
       (if matchesUpstream w publishBranch then done_with () else processExit 1)"

text \<open>
  Modelled from the spec: \<^verbatim>\<open>promptConfirm\<close> is a method of \<^verbatim>\<open>BaseReleaseTask\<close>, which is not
  part of the sources at hand. The spec: confirmation prompts are "binary yes/no".
\<close>

definition promptConfirm :: "world \<Rightarrow> string \<Rightarrow> bool step" where
  "promptConfirm w msg =
     next_do (emit (PromptConfirm msg (confirmAnswer w msg)))
       (done_with (confirmAnswer w msg))"

text \<open>
  \<^verbatim>\<open>promptForNpmDistTag\<close> (\<^verbatim>\<open>./prompt/npm-dist-tag-prompt\<close>) returns the tag the user chose.
\<close>

definition promptForNpmDistTag :: "world \<Rightarrow> Version \<Rightarrow> string step" where
  "promptForNpmDistTag w v =
     next_do (emit (PromptForNpmDistTag v (distTagAnswer w v)))
       (done_with (distTagAnswer w v))"

subsection \<open>Methods of \<^verbatim>\<open>PublishReleaseTask\<close>\<close>

text \<open>
  \<^verbatim>\<open>/chore: bump version/.test(s)\<close>: the pattern has no anchor and no special character, so
  the test looks for the pattern's characters at every position of \<open>s\<close>, from the left.
\<close>

fun startsWith :: "string \<Rightarrow> string \<Rightarrow> bool" where
  "startsWith s [] = True"
| "startsWith [] (p # ps) = False"
| "startsWith (c # cs) (p # ps) = (c = p \<and> startsWith cs ps)"

fun regexTest :: "string \<Rightarrow> string \<Rightarrow> bool" where
  "regexTest pat [] = startsWith [] pat"
| "regexTest pat (c # cs) = (startsWith (c # cs) pat \<or> regexTest pat cs)"

definition versionBumpPattern :: string where
  "versionBumpPattern = ''chore: bump version''"

definition verifyLastCommitVersionBump :: "world \<Rightarrow> unit step" where
  "verifyLastCommitVersionBump w =
     (let title = getCommitTitle w ''HEAD''
      in next_do (emit (GetCommitTitle ''HEAD'' title))
           (if \<not> regexTest versionBumpPattern title
            then next_do (emit (Console Error LastCommitNotVersionBump))
                   (next_do (emit (Console Error PleaseUseStagingScript))
                      (processExit 1))
            else done_with ()))"

text \<open>\<^verbatim>\<open>Array.prototype.join\<close> with a separator.\<close>

fun joinWith :: "string \<Rightarrow> string list \<Rightarrow> string" where
  "joinWith sep [] = []"
| "joinWith sep [x] = x"
| "joinWith sep (x # y # ys) = x @ sep @ joinWith sep (y # ys)"

text \<open>\<^verbatim>\<open>execSync(cmd, {cwd, stdio: 'inherit'})\<close> throws when the command fails.\<close>

definition exec :: "world \<Rightarrow> string \<Rightarrow> string \<Rightarrow> unit step" where
  "exec w cmd cwd =
     next_do (emit (ExecSync cmd cwd (execSync w cmd cwd)))
       (if execSync w cmd cwd then done_with () else throw)"

definition buildReleasePackages :: "world \<Rightarrow> PublishReleaseTask \<Rightarrow> unit step" where
  "buildReleasePackages w t =
     (let binDir = join_path w (projectDir t) ''node_modules/.bin''
      in next_do (exec w ''gulp clean'' binDir)
           (exec w (''gulp '' @ joinWith '' ''
                      (map (\<lambda>name. name @ '':build-release'') (releasePackages w)))
              binDir))"

text \<open>
  The \<^verbatim>\<open>forEach\<close> of \<^verbatim>\<open>checkReleaseOutput\<close>, with the variable \<^verbatim>\<open>hasFailed\<close> passed along.
\<close>

fun checkEach :: "world \<Rightarrow> string \<Rightarrow> string list \<Rightarrow> bool \<Rightarrow> bool step" where
  "checkEach w out [] hasFailed = done_with hasFailed"
| "checkEach w out (packageName # rest) hasFailed =
     (let ok = checkReleasePackage w out packageName
      in next_do (emit (CheckReleasePackage out packageName ok))
           (checkEach w out rest (if \<not> ok then True else hasFailed)))"

definition checkReleaseOutput :: "world \<Rightarrow> PublishReleaseTask \<Rightarrow> unit step" where
  "checkReleaseOutput w t =
     andThen (checkEach w (releaseOutputPath t) (releasePackages w) False)
       (\<lambda>hasFailed.
          if hasFailed
          then next_do (emit (Console Error ReleaseOutputFailsValidation)) (processExit 1)
          else done_with ())"

definition stableToNextQuestion :: string where
  \<open>stableToNextQuestion =
     ''Are you sure that you want to release a stable version to the "next" tag?''\<close>

definition releaseNowQuestion :: string where
  "releaseNowQuestion = ''Are you sure that you want to release now?''"

definition promptStableVersionForNextTag :: "world \<Rightarrow> unit step" where
  "promptStableVersionForNextTag w =
     andThen (promptConfirm w stableToNextQuestion)
       (\<lambda>yes.
          if \<not> yes
          then next_do (emit (Console Log Blank))
                 (next_do (emit (Console Log AbortingPublish)) (processExit 0))
          else done_with ())"

definition promptConfirmReleasePublish :: "world \<Rightarrow> unit step" where
  "promptConfirmReleasePublish w =
     andThen (promptConfirm w releaseNowQuestion)
       (\<lambda>yes.
          if \<not> yes
          then next_do (emit (Console Log Blank))
                 (next_do (emit (Console Log AbortingPublish)) (processExit 0))
          else done_with ())"

text \<open>
  The \<^verbatim>\<open>for\<close> loop of \<^verbatim>\<open>checkNpmAuthentication\<close>, with the counter \<^verbatim>\<open>i\<close> and the variable
  \<^verbatim>\<open>failedAuthentication\<close> passed along; \<^verbatim>\<open>break\<close> returns the variable as it is.
\<close>

function loginLoop :: "world \<Rightarrow> nat \<Rightarrow> bool \<Rightarrow> bool step" where
  "loginLoop w i failedAuthentication =
     (if i < MAX_NPM_LOGIN_TRIES
      then (let ok = runInteractiveNpmLogin w i
            in next_do (emit (RunInteractiveNpmLogin ok))
                 (if ok then done_with failedAuthentication
                  else next_do (emit (Console Error CouldNotAuthenticateTryAgain))
                         (loginLoop w (i + 1) True)))
      else done_with failedAuthentication)"
  by pat_completeness auto
termination
  by (relation "measure (\<lambda>(w, i, f). MAX_NPM_LOGIN_TRIES - i)") auto

definition checkNpmAuthentication :: "world \<Rightarrow> unit step" where
  "checkNpmAuthentication w =
     next_do (emit (IsNpmAuthenticated (isNpmAuthenticated w)))
       (if isNpmAuthenticated w
        then emit (Console Info NpmIsAuthenticated)
        else next_do (emit (Console Log NpmNotAuthenticatedRunningLogin))
               (andThen (loginLoop w 0 False)
                  (\<lambda>failedAuthentication.
                     if failedAuthentication
                     then next_do
                            (emit (Console Error
                               (CouldNotAuthenticateAfterTries MAX_NPM_LOGIN_TRIES)))
                            (processExit 1)
                     else emit (Console Info SuccessfullyAuthenticatedNpm))))"

definition publishPackageToNpm ::
  "world \<Rightarrow> PublishReleaseTask \<Rightarrow> string \<Rightarrow> string \<Rightarrow> unit step" where
  "publishPackageToNpm w t packageName npmDistTag =
     next_do (emit (Console Info (Publishing packageName)))
       (let path = join_path w (releaseOutputPath t) packageName;
            errorOutput = runNpmPublish w path npmDistTag
        in next_do (emit (RunNpmPublish path npmDistTag errorOutput))
             (if truthy errorOutput
              then next_do (emit (Console Error (ErrorWhilePublishing packageName)))
                     (next_do (emit (Console Error PleaseCheckTerminalOutput))
                        (next_do (emit (Console Error (ErrorOutput errorOutput)))
                           (processExit 1)))
              else emit (Console Info (SuccessfullyPublished packageName))))"

text \<open>The loop \<^verbatim>\<open>for (let packageName of releasePackages)\<close> of \<^verbatim>\<open>run\<close>.\<close>

fun publishEach ::
  "world \<Rightarrow> PublishReleaseTask \<Rightarrow> string \<Rightarrow> string list \<Rightarrow> unit step" where
  "publishEach w t npmDistTag [] = done_with ()"
| "publishEach w t npmDistTag (packageName # rest) =
     next_do (publishPackageToNpm w t packageName npmDistTag)
       (publishEach w t npmDistTag rest)"

fun console :: "level \<Rightarrow> message list \<Rightarrow> unit step" where
  "console lvl [] = done_with ()"
| "console lvl (m # ms) = next_do (emit (Console lvl m)) (console lvl ms)"

definition run :: "world \<Rightarrow> PublishReleaseTask \<Rightarrow> unit step" where
  "run w t = async
     (let newVersion = currentVersion t;
          newVersionName = format w newVersion
      in
      next_do (console Log [Blank, BannerRule, BannerTitle, BannerRule, Blank])
     (next_do (verifyNoUncommittedChanges w)
     (andThen (switchToPublishBranch w newVersion) (\<lambda>publishBranch.
      next_do (verifyLastCommitVersionBump w)
     (next_do (verifyLocalCommitsMatchUpstream w publishBranch)
     (andThen (promptForNpmDistTag w newVersion) (\<lambda>npmDistTag.
      next_do (if npmDistTag = ''next'' \<and> \<not> truthy (prereleaseLabel newVersion)
               then promptStableVersionForNextTag w else done_with ())
     (next_do (buildReleasePackages w t)
     (next_do (emit (Console Info BuiltReleaseOutput))
     (next_do (checkReleaseOutput w t)
     (next_do (emit (Console Info ReleaseOutputPassedValidation))
     (next_do (emit (CreateTag ''HEAD'' newVersionName []))
     (next_do (emit (Console Info (CreatedReleaseTag newVersionName)))
     (next_do (checkNpmAuthentication w)
     (next_do (promptConfirmReleasePublish w)
     (next_do (publishEach w t npmDistTag (releasePackages w))
     (next_do (emit (Console Log Blank))
     (console Info [PublishedAllPackages, PleasePushTagAndDraftRelease,
        GithubReleasesUrl
          (getGithubReleasesUrl w (repositoryOwner t) (repositoryName t))])
     )))))))))))))))))"

text \<open>
  The entry point:
  \<^verbatim>\<open>new PublishReleaseTask(join(__dirname, '../../'), 'angular', 'material2').run()\<close>.
\<close>

definition main :: "world \<Rightarrow> unit step" where
  "main w =
     andThen
       (new_PublishReleaseTask w (join_path w (dirname w) ''../../'')
          ''angular'' ''material2'')
       (run w)"

subsection \<open>Observations on a run\<close>

text \<open>
  The definitions of this section are not code of the script: they name what the
  properties below speak about.
\<close>

fun isConsole :: "event \<Rightarrow> bool" where
  "isConsole (Console lvl m) = True"
| "isConsole ev = False"

text \<open>The calls of a trace: its events without the console lines.\<close>

definition calls :: "event list \<Rightarrow> event list" where
  "calls tr = filter (\<lambda>ev. \<not> isConsole ev) tr"

fun isExecSync :: "event \<Rightarrow> bool" where
  "isExecSync (ExecSync cmd cwd ok) = True"
| "isExecSync ev = False"

fun isCheckReleasePackage :: "event \<Rightarrow> bool" where
  "isCheckReleasePackage (CheckReleasePackage out p ok) = True"
| "isCheckReleasePackage ev = False"

fun isCreateTag :: "event \<Rightarrow> bool" where
  "isCreateTag (CreateTag ref name msg) = True"
| "isCreateTag ev = False"

fun isRunNpmPublish :: "event \<Rightarrow> bool" where
  "isRunNpmPublish (RunNpmPublish path tag err) = True"
| "isRunNpmPublish ev = False"


definition prepend :: "event list \<Rightarrow> 'a step \<Rightarrow> 'a step" where
  "prepend tr m = (tr @ fst m, snd m)"

definition banner :: "event list" where
  "banner = [Console Log Blank, Console Log BannerRule, Console Log BannerTitle,
             Console Log BannerRule, Console Log Blank]"

definition binDir :: "world \<Rightarrow> PublishReleaseTask \<Rightarrow> string" where
  "binDir w t = join_path w (projectDir t) ''node_modules/.bin''"

definition buildCommand :: "world \<Rightarrow> string" where
  "buildCommand w =
     ''gulp '' @ joinWith '' ''
        (map (\<lambda>name. name @ '':build-release'') (releasePackages w))"

definition npmDistTagOf :: "world \<Rightarrow> PublishReleaseTask \<Rightarrow> string" where
  "npmDistTagOf w t = distTagAnswer w (currentVersion t)"

text \<open>The condition of \<^verbatim>\<open>run\<close> under which the extra confirmation is asked for.\<close>

definition asksStableToNext :: "world \<Rightarrow> PublishReleaseTask \<Rightarrow> bool" where
  "asksStableToNext w t =
     (npmDistTagOf w t = ''next'' \<and> \<not> truthy (prereleaseLabel (currentVersion t)))"

text \<open>The call \<^verbatim>\<open>runNpmPublish\<close> for one package, with what it returns.\<close>

definition publishCall :: "world \<Rightarrow> PublishReleaseTask \<Rightarrow> string \<Rightarrow> event" where
  "publishCall w t p =
     RunNpmPublish (join_path w (releaseOutputPath t) p) (npmDistTagOf w t)
       (runNpmPublish w (join_path w (releaseOutputPath t) p) (npmDistTagOf w t))"

definition publishFails :: "world \<Rightarrow> PublishReleaseTask \<Rightarrow> string \<Rightarrow> bool" where
  "publishFails w t p =
     truthy (runNpmPublish w (join_path w (releaseOutputPath t) p) (npmDistTagOf w t))"

definition checkCall :: "world \<Rightarrow> PublishReleaseTask \<Rightarrow> string \<Rightarrow> event" where
  "checkCall w t p =
     CheckReleasePackage (releaseOutputPath t) p
       (checkReleasePackage w (releaseOutputPath t) p)"

text \<open>
  \<open>reaches_X w t\<close>: every check of \<^verbatim>\<open>run\<close> before the step \<open>X\<close> passes, so that the run gets
  to \<open>X\<close>; \<open>reached_X w t\<close>: the events of the run up to there.
\<close>

definition reaches_title :: "world \<Rightarrow> PublishReleaseTask \<Rightarrow> bool" where
  "reaches_title w t =
     (\<not> uncommittedChanges w \<and> checkoutBranch w (publishBranchOf w (currentVersion t)))"

definition reached_title :: "world \<Rightarrow> PublishReleaseTask \<Rightarrow> event list" where
  "reached_title w t =
     banner @ [HasUncommittedChanges False,
               CheckoutBranch (publishBranchOf w (currentVersion t)) True]"

definition reaches_prompt :: "world \<Rightarrow> PublishReleaseTask \<Rightarrow> bool" where
  "reaches_prompt w t =
     (reaches_title w t \<and> regexTest versionBumpPattern (getCommitTitle w ''HEAD'')
      \<and> matchesUpstream w (publishBranchOf w (currentVersion t)))"

definition reached_prompt :: "world \<Rightarrow> PublishReleaseTask \<Rightarrow> event list" where
  "reached_prompt w t =
     reached_title w t @
       [GetCommitTitle ''HEAD'' (getCommitTitle w ''HEAD''),
        CompareWithUpstream (publishBranchOf w (currentVersion t)) True]"

definition reaches_build :: "world \<Rightarrow> PublishReleaseTask \<Rightarrow> bool" where
  "reaches_build w t =
     (reaches_prompt w t \<and> (\<not> asksStableToNext w t \<or> confirmAnswer w stableToNextQuestion))"

definition reached_build :: "world \<Rightarrow> PublishReleaseTask \<Rightarrow> event list" where
  "reached_build w t =
     reached_prompt w t @
       PromptForNpmDistTag (currentVersion t) (npmDistTagOf w t) #
       (if asksStableToNext w t then [PromptConfirm stableToNextQuestion True] else [])"

definition reaches_check :: "world \<Rightarrow> PublishReleaseTask \<Rightarrow> bool" where
  "reaches_check w t =
     (reaches_build w t \<and> execSync w ''gulp clean'' (binDir w t)
      \<and> execSync w (buildCommand w) (binDir w t))"

definition reached_check :: "world \<Rightarrow> PublishReleaseTask \<Rightarrow> event list" where
  "reached_check w t =
     reached_build w t @
       [ExecSync ''gulp clean'' (binDir w t) True,
        ExecSync (buildCommand w) (binDir w t) True,
        Console Info BuiltReleaseOutput]"

definition reaches_tag :: "world \<Rightarrow> PublishReleaseTask \<Rightarrow> bool" where
  "reaches_tag w t =
     (reaches_check w t
      \<and> list_all (checkReleasePackage w (releaseOutputPath t)) (releasePackages w))"

definition reached_tag :: "world \<Rightarrow> PublishReleaseTask \<Rightarrow> event list" where
  "reached_tag w t =
     reached_check w t @ map (checkCall w t) (releasePackages w) @
       [Console Info ReleaseOutputPassedValidation]"

definition reached_auth :: "world \<Rightarrow> PublishReleaseTask \<Rightarrow> event list" where
  "reached_auth w t =
     reached_tag w t @
       [CreateTag ''HEAD'' (format w (currentVersion t)) [],
        Console Info (CreatedReleaseTag (format w (currentVersion t)))]"

definition reaches_confirm :: "world \<Rightarrow> PublishReleaseTask \<Rightarrow> bool" where
  "reaches_confirm w t =
     (reaches_tag w t \<and> (isNpmAuthenticated w \<or> runInteractiveNpmLogin w 0))"

definition reached_confirm :: "world \<Rightarrow> PublishReleaseTask \<Rightarrow> event list" where
  "reached_confirm w t =
     reached_auth w t @
       (if isNpmAuthenticated w
        then [IsNpmAuthenticated True, Console Info NpmIsAuthenticated]
        else [IsNpmAuthenticated False, Console Log NpmNotAuthenticatedRunningLogin,
              RunInteractiveNpmLogin True, Console Info SuccessfullyAuthenticatedNpm])"

definition reaches_publish :: "world \<Rightarrow> PublishReleaseTask \<Rightarrow> bool" where
  "reaches_publish w t = (reaches_confirm w t \<and> confirmAnswer w releaseNowQuestion)"

definition reached_publish :: "world \<Rightarrow> PublishReleaseTask \<Rightarrow> event list" where
  "reached_publish w t = reached_confirm w t @ [PromptConfirm releaseNowQuestion True]"

definition farewell :: "world \<Rightarrow> PublishReleaseTask \<Rightarrow> event list" where
  "farewell w t =
     [Console Log Blank, Console Info PublishedAllPackages,
      Console Info PleasePushTagAndDraftRelease,
      Console Info (GithubReleasesUrl
        (getGithubReleasesUrl w (repositoryOwner t) (repositoryName t)))]"

text \<open>
  The steps of \<^verbatim>\<open>run\<close> that follow the creation of the tag: the authentication check, the
  final confirmation prompt and the \<^verbatim>\<open>npm publish\<close> of a package.
\<close>

fun isReleaseStep :: "event \<Rightarrow> bool" where
  "isReleaseStep (IsNpmAuthenticated ok) = True"
| "isReleaseStep (RunInteractiveNpmLogin ok) = True"
| "isReleaseStep (PromptConfirm question answer) = (question = releaseNowQuestion)"
| "isReleaseStep (RunNpmPublish path tag err) = True"
| "isReleaseStep ev = False"

text \<open>What the entry point passes to the constructor, and the task the constructor builds.\<close>

definition rootDir :: "world \<Rightarrow> string" where
  "rootDir w = join_path w (dirname w) ''../../''"

definition manifestPath :: "world \<Rightarrow> string" where
  "manifestPath w = join_path w (rootDir w) ''package.json''"

definition manifestVersion :: "world \<Rightarrow> string option" where
  "manifestVersion w = packageJsonVersion w (manifestPath w)"

definition entryTask :: "world \<Rightarrow> string \<Rightarrow> Version \<Rightarrow> PublishReleaseTask" where
  "entryTask w ver v =
     \<lparr> projectDir = rootDir w, repositoryOwner = ''angular'',
       repositoryName = ''material2'', packageJsonPath = manifestPath w,
       packageJson_version = ver, currentVersion = v,
       releaseOutputPath = join_path w (rootDir w) ''dist/releases'' \<rparr>"

text \<open>
  The events by which the script changes the repository, the build output or the
  registry: the branch switch, the build commands, the tag and the publish calls.
\<close>

fun isMutating :: "event \<Rightarrow> bool" where
  "isMutating (CheckoutBranch branch ok) = True"
| "isMutating (ExecSync cmd cwd ok) = True"
| "isMutating (CreateTag ref name msg) = True"
| "isMutating (RunNpmPublish path tag err) = True"
| "isMutating ev = False"

text \<open>
  The packages of a list up to and including the first one that satisfies \<open>P\<close>; the whole
  list when none does.
\<close>

fun uptoFirst :: "('a \<Rightarrow> bool) \<Rightarrow> 'a list \<Rightarrow> 'a list" where
  "uptoFirst P [] = []"
| "uptoFirst P (x # xs) = (if P x then [x] else x # uptoFirst P xs)"



subsection \<open>A concrete run\<close>

text \<open>
  The end-to-end scenario of the spec: a clean tree, the last commit titled
  "chore: bump version to 5.0.0", the manifest version 5.0.0, the dist tag "latest", three
  packages that pass validation and publish without error output.
\<close>

definition release5 :: Version where
  "release5 = \<lparr> major = 5, minor = 0, patch = 0, prereleaseLabel = None \<rparr>"

definition scenario :: world where
  "scenario =
     \<lparr> dirname = ''/material2/tools/release'',
       join_path = (\<lambda>a b. a @ ''/'' @ b),
       packageJsonVersion = (\<lambda>path. Some ''5.0.0''),
       parseVersionName = (\<lambda>s. if s = ''5.0.0'' then Some release5 else None),
       format = (\<lambda>v. ''5.0.0''),
       uncommittedChanges = False,
       publishBranchOf = (\<lambda>v. ''5.0.x''),
       checkoutBranch = (\<lambda>branch. True),
       getCommitTitle = (\<lambda>ref. ''chore: bump version to 5.0.0''),
       matchesUpstream = (\<lambda>branch. True),
       distTagAnswer = (\<lambda>v. ''latest''),
       confirmAnswer = (\<lambda>question. True),
       execSync = (\<lambda>cmd cwd. True),
       checkReleasePackage = (\<lambda>out p. True),
       isNpmAuthenticated = True,
       runInteractiveNpmLogin = (\<lambda>i. True),
       runNpmPublish = (\<lambda>path tag. None),
       releasePackages = [''cdk'', ''material'', ''moment-adapter''],
       getGithubReleasesUrl = (\<lambda>owner name. owner @ ''/'' @ name @ ''/releases''),
       uncaughtExceptionStatus = 1,
       unhandledRejectionStatus = 1 \<rparr>"

definition scenarioTask :: PublishReleaseTask where
  "scenarioTask = entryTask scenario ''5.0.0'' release5"













section \<open>Properties\<close>

subsection \<open>Sequencing\<close>

lemma prepend_pair: "prepend tr (tr', r) = (tr @ tr', r)"
  by (simp add: prepend_def)

lemma next_do_Inl: "next_do (tr, Inl a) n = (tr, Inl a)"
  by (simp add: next_do_def andThen_def)

lemma next_do_Inr: "next_do (tr, Inr x) n = prepend tr n"
  by (simp add: next_do_def andThen_def prepend_def)

lemma andThen_Inl: "andThen (tr, Inl a) f = (tr, Inl a)"
  by (simp add: andThen_def)

lemma andThen_Inr: "andThen (tr, Inr x) f = prepend tr (f x)"
  by (simp add: andThen_def prepend_def)

lemma next_do_head: "m = m' \<Longrightarrow> next_do m n = next_do m' n"
  by simp

lemma andThen_head: "m = m' \<Longrightarrow> andThen m f = andThen m' f"
  by simp

lemma async_exit: "async (tr, Inl (Exit code)) = (tr, Inl (Exit code))"
  by (simp add: async_def)

lemma async_thrown: "async (tr, Inl Uncaught) = (tr, Inl Rejected)"
  by (simp add: async_def)

lemma async_returned: "async (tr, Inr x) = (tr, Inr x)"
  by (simp add: async_def)

lemmas step_simps =
  emit_def done_with_def processExit_def throw_def prepend_pair
  next_do_Inl next_do_Inr andThen_Inl andThen_Inr Let_def
  async_exit async_thrown async_returned

subsection \<open>The loops\<close>

lemma checkEach_eq:
  "checkEach w out ps h =
     (map (\<lambda>p. CheckReleasePackage out p (checkReleasePackage w out p)) ps,
      Inr (h \<or> (\<exists>p\<in>set ps. \<not> checkReleasePackage w out p)))"
  by (induction ps arbitrary: h) (auto simp: step_simps)

lemma checkReleaseOutput_fails:
  "\<exists>p\<in>set (releasePackages w). \<not> checkReleasePackage w (releaseOutputPath t) p \<Longrightarrow>
   checkReleaseOutput w t =
     (map (\<lambda>p. CheckReleasePackage (releaseOutputPath t) p
                  (checkReleasePackage w (releaseOutputPath t) p)) (releasePackages w)
        @ [Console Error ReleaseOutputFailsValidation], Inl (Exit 1))"
  by (simp add: checkReleaseOutput_def checkEach_eq step_simps)

lemma checkReleaseOutput_passes:
  "\<forall>p\<in>set (releasePackages w). checkReleasePackage w (releaseOutputPath t) p \<Longrightarrow>
   checkReleaseOutput w t =
     (map (\<lambda>p. CheckReleasePackage (releaseOutputPath t) p True) (releasePackages w),
      Inr ())"
  by (simp add: checkReleaseOutput_def checkEach_eq step_simps)

lemma loginLoop_unrolled:
  "loginLoop w 0 False =
     (if runInteractiveNpmLogin w 0 then ([RunInteractiveNpmLogin True], Inr False)
      else if runInteractiveNpmLogin w 1
      then ([RunInteractiveNpmLogin False, Console Error CouldNotAuthenticateTryAgain,
             RunInteractiveNpmLogin True], Inr True)
      else ([RunInteractiveNpmLogin False, Console Error CouldNotAuthenticateTryAgain,
             RunInteractiveNpmLogin False, Console Error CouldNotAuthenticateTryAgain],
            Inr True))"
  by (simp add: MAX_NPM_LOGIN_TRIES_def step_simps)

lemma checkNpmAuthentication_eq:
  "checkNpmAuthentication w =
     (if isNpmAuthenticated w
      then ([IsNpmAuthenticated True, Console Info NpmIsAuthenticated], Inr ())
      else if runInteractiveNpmLogin w 0
      then ([IsNpmAuthenticated False, Console Log NpmNotAuthenticatedRunningLogin,
             RunInteractiveNpmLogin True, Console Info SuccessfullyAuthenticatedNpm],
            Inr ())
      else if runInteractiveNpmLogin w 1
      then ([IsNpmAuthenticated False, Console Log NpmNotAuthenticatedRunningLogin,
             RunInteractiveNpmLogin False, Console Error CouldNotAuthenticateTryAgain,
             RunInteractiveNpmLogin True,
             Console Error (CouldNotAuthenticateAfterTries 2)], Inl (Exit 1))
      else ([IsNpmAuthenticated False, Console Log NpmNotAuthenticatedRunningLogin,
             RunInteractiveNpmLogin False, Console Error CouldNotAuthenticateTryAgain,
             RunInteractiveNpmLogin False, Console Error CouldNotAuthenticateTryAgain,
             Console Error (CouldNotAuthenticateAfterTries 2)], Inl (Exit 1)))"
  by (simp add: checkNpmAuthentication_def loginLoop_unrolled step_simps
      MAX_NPM_LOGIN_TRIES_def)

subsection \<open>Where a run ends\<close>

lemmas reach_defs =
  reaches_title_def reached_title_def reaches_prompt_def reached_prompt_def
  reaches_build_def reached_build_def reaches_check_def reached_check_def
  reaches_tag_def reached_tag_def reached_auth_def reaches_confirm_def
  reached_confirm_def reaches_publish_def reached_publish_def
  banner_def binDir_def buildCommand_def npmDistTagOf_def asksStableToNext_def
  checkCall_def farewell_def

lemmas method_defs =
  verifyNoUncommittedChanges_def switchToPublishBranch_def
  verifyLastCommitVersionBump_def verifyLocalCommitsMatchUpstream_def
  promptForNpmDistTag_def promptStableVersionForNextTag_def promptConfirm_def
  promptConfirmReleasePublish_def buildReleasePackages_def exec_def
  checkNpmAuthentication_eq

lemma run_dirty:
  "uncommittedChanges w \<Longrightarrow>
   run w t = (banner @ [HasUncommittedChanges True], Inl (Exit 1))"
  by (simp add: run_def method_defs step_simps banner_def
      cong: next_do_head andThen_head)

lemma run_no_checkout:
  "\<not> uncommittedChanges w \<Longrightarrow> \<not> checkoutBranch w (publishBranchOf w (currentVersion t)) \<Longrightarrow>
   run w t = (banner @ [HasUncommittedChanges False,
                CheckoutBranch (publishBranchOf w (currentVersion t)) False], Inl (Exit 1))"
  by (simp add: run_def method_defs step_simps banner_def
      cong: next_do_head andThen_head)

lemma run_no_bump:
  "reaches_title w t \<Longrightarrow> \<not> regexTest versionBumpPattern (getCommitTitle w ''HEAD'') \<Longrightarrow>
   run w t = (reached_title w t @
                [GetCommitTitle ''HEAD'' (getCommitTitle w ''HEAD''),
                 Console Error LastCommitNotVersionBump,
                 Console Error PleaseUseStagingScript], Inl (Exit 1))"
  by (simp add: run_def method_defs step_simps reach_defs
      cong: next_do_head andThen_head)

lemma run_diverged:
  "reaches_title w t \<Longrightarrow> regexTest versionBumpPattern (getCommitTitle w ''HEAD'') \<Longrightarrow>
   \<not> matchesUpstream w (publishBranchOf w (currentVersion t)) \<Longrightarrow>
   run w t = (reached_title w t @
                [GetCommitTitle ''HEAD'' (getCommitTitle w ''HEAD''),
                 CompareWithUpstream (publishBranchOf w (currentVersion t)) False],
              Inl (Exit 1))"
  by (simp add: run_def method_defs step_simps reach_defs
      cong: next_do_head andThen_head)

lemma run_declined_next:
  "reaches_prompt w t \<Longrightarrow> asksStableToNext w t \<Longrightarrow>
   \<not> confirmAnswer w stableToNextQuestion \<Longrightarrow>
   run w t = (reached_prompt w t @
                [PromptForNpmDistTag (currentVersion t) ''next'',
                 PromptConfirm stableToNextQuestion False,
                 Console Log Blank, Console Log AbortingPublish], Inl (Exit 0))"
  by (simp add: run_def method_defs step_simps reach_defs
      cong: next_do_head andThen_head)

lemma run_clean_fails:
  "reaches_build w t \<Longrightarrow> \<not> execSync w ''gulp clean'' (binDir w t) \<Longrightarrow>
   run w t = (reached_build w t @ [ExecSync ''gulp clean'' (binDir w t) False],
              Inl Rejected)"
  by (auto simp add: run_def method_defs step_simps reach_defs
      cong: next_do_head andThen_head)

lemma run_build_fails:
  "reaches_build w t \<Longrightarrow> execSync w ''gulp clean'' (binDir w t) \<Longrightarrow>
   \<not> execSync w (buildCommand w) (binDir w t) \<Longrightarrow>
   run w t = (reached_build w t @
                [ExecSync ''gulp clean'' (binDir w t) True,
                 ExecSync (buildCommand w) (binDir w t) False], Inl Rejected)"
  by (auto simp add: run_def method_defs step_simps reach_defs
      cong: next_do_head andThen_head)

lemma snd_publishEach:
  "snd (publishEach w t tag ps) =
     (if \<exists>p\<in>set ps. truthy (runNpmPublish w (join_path w (releaseOutputPath t) p) tag)
      then Inl (Exit 1) else Inr ())"
  by (induction ps) (simp_all add: publishPackageToNpm_def step_simps prepend_def)

lemma next_do_publishEach:
  "next_do (publishEach w t tag ps) n =
     (if \<exists>p\<in>set ps. truthy (runNpmPublish w (join_path w (releaseOutputPath t) p) tag)
      then (fst (publishEach w t tag ps), Inl (Exit 1))
      else prepend (fst (publishEach w t tag ps)) n)"
  by (simp add: next_do_def andThen_def prepend_def snd_publishEach)

lemma run_invalid:
  "reaches_check w t \<Longrightarrow>
   \<not> list_all (checkReleasePackage w (releaseOutputPath t)) (releasePackages w) \<Longrightarrow>
   run w t = (reached_check w t @ map (checkCall w t) (releasePackages w) @
                [Console Error ReleaseOutputFailsValidation], Inl (Exit 1))"
  by (auto simp add: run_def method_defs step_simps reach_defs checkReleaseOutput_fails
      list_all_iff cong: next_do_head andThen_head)

lemma checkCall_passes:
  "list_all (checkReleasePackage w (releaseOutputPath t)) ps \<Longrightarrow>
   map (\<lambda>p. CheckReleasePackage (releaseOutputPath t) p True) ps = map (checkCall w t) ps"
  by (simp add: list_all_iff checkCall_def)

lemma run_login_late:
  "reaches_tag w t \<Longrightarrow> \<not> isNpmAuthenticated w \<Longrightarrow> \<not> runInteractiveNpmLogin w 0 \<Longrightarrow>
   runInteractiveNpmLogin w 1 \<Longrightarrow>
   run w t = (reached_auth w t @
                [IsNpmAuthenticated False, Console Log NpmNotAuthenticatedRunningLogin,
                 RunInteractiveNpmLogin False, Console Error CouldNotAuthenticateTryAgain,
                 RunInteractiveNpmLogin True,
                 Console Error (CouldNotAuthenticateAfterTries 2)], Inl (Exit 1))"
  by (auto simp add: run_def method_defs step_simps reach_defs checkReleaseOutput_passes
      list_all_iff cong: next_do_head andThen_head)

lemma run_login_exhausted:
  "reaches_tag w t \<Longrightarrow> \<not> isNpmAuthenticated w \<Longrightarrow> \<not> runInteractiveNpmLogin w 0 \<Longrightarrow>
   \<not> runInteractiveNpmLogin w 1 \<Longrightarrow>
   run w t = (reached_auth w t @
                [IsNpmAuthenticated False, Console Log NpmNotAuthenticatedRunningLogin,
                 RunInteractiveNpmLogin False, Console Error CouldNotAuthenticateTryAgain,
                 RunInteractiveNpmLogin False, Console Error CouldNotAuthenticateTryAgain,
                 Console Error (CouldNotAuthenticateAfterTries 2)], Inl (Exit 1))"
  by (auto simp add: run_def method_defs step_simps reach_defs checkReleaseOutput_passes
      list_all_iff cong: next_do_head andThen_head)

lemma run_declined_release:
  "reaches_confirm w t \<Longrightarrow> \<not> confirmAnswer w releaseNowQuestion \<Longrightarrow>
   run w t = (reached_confirm w t @
                [PromptConfirm releaseNowQuestion False,
                 Console Log Blank, Console Log AbortingPublish], Inl (Exit 0))"
  by (auto simp add: run_def method_defs step_simps reach_defs checkReleaseOutput_passes
      list_all_iff cong: next_do_head andThen_head)

lemma run_publish_fails:
  "reaches_publish w t \<Longrightarrow> \<exists>p\<in>set (releasePackages w). publishFails w t p \<Longrightarrow>
   run w t = (reached_publish w t @
                fst (publishEach w t (npmDistTagOf w t) (releasePackages w)),
              Inl (Exit 1))"
  by (auto simp add: run_def method_defs step_simps reach_defs checkReleaseOutput_passes
      list_all_iff next_do_publishEach publishFails_def
      cong: next_do_head andThen_head)

lemma run_success:
  "reaches_publish w t \<Longrightarrow> \<forall>p\<in>set (releasePackages w). \<not> publishFails w t p \<Longrightarrow>
   run w t = (reached_publish w t @
                fst (publishEach w t (npmDistTagOf w t) (releasePackages w)) @
                farewell w t, Inr ())"
  by (auto simp add: run_def method_defs step_simps reach_defs checkReleaseOutput_passes
      list_all_iff next_do_publishEach publishFails_def
      cong: next_do_head andThen_head)

lemma run_cases
  [case_names dirty no_checkout no_bump diverged declined_next clean_fails build_fails
    invalid login_late login_exhausted declined_release publish_fails success]:
  obtains
    "uncommittedChanges w"
    "run w t = (banner @ [HasUncommittedChanges True], Inl (Exit 1))"
  | "\<not> uncommittedChanges w"
    "\<not> checkoutBranch w (publishBranchOf w (currentVersion t))"
    "run w t = (banner @ [HasUncommittedChanges False,
                  CheckoutBranch (publishBranchOf w (currentVersion t)) False],
                Inl (Exit 1))"
  | "reaches_title w t"
    "\<not> regexTest versionBumpPattern (getCommitTitle w ''HEAD'')"
    "run w t = (reached_title w t @
                  [GetCommitTitle ''HEAD'' (getCommitTitle w ''HEAD''),
                   Console Error LastCommitNotVersionBump,
                   Console Error PleaseUseStagingScript], Inl (Exit 1))"
  | "reaches_title w t"
    "regexTest versionBumpPattern (getCommitTitle w ''HEAD'')"
    "\<not> matchesUpstream w (publishBranchOf w (currentVersion t))"
    "run w t = (reached_title w t @
                  [GetCommitTitle ''HEAD'' (getCommitTitle w ''HEAD''),
                   CompareWithUpstream (publishBranchOf w (currentVersion t)) False],
                Inl (Exit 1))"
  | "reaches_prompt w t" "asksStableToNext w t"
    "\<not> confirmAnswer w stableToNextQuestion"
    "run w t = (reached_prompt w t @
                  [PromptForNpmDistTag (currentVersion t) ''next'',
                   PromptConfirm stableToNextQuestion False,
                   Console Log Blank, Console Log AbortingPublish], Inl (Exit 0))"
  | "reaches_build w t" "\<not> execSync w ''gulp clean'' (binDir w t)"
    "run w t = (reached_build w t @ [ExecSync ''gulp clean'' (binDir w t) False],
                Inl Rejected)"
  | "reaches_build w t" "execSync w ''gulp clean'' (binDir w t)"
    "\<not> execSync w (buildCommand w) (binDir w t)"
    "run w t = (reached_build w t @
                  [ExecSync ''gulp clean'' (binDir w t) True,
                   ExecSync (buildCommand w) (binDir w t) False], Inl Rejected)"
  | "reaches_check w t"
    "\<not> list_all (checkReleasePackage w (releaseOutputPath t)) (releasePackages w)"
    "run w t = (reached_check w t @ map (checkCall w t) (releasePackages w) @
                  [Console Error ReleaseOutputFailsValidation], Inl (Exit 1))"
  | "reaches_tag w t" "\<not> isNpmAuthenticated w" "\<not> runInteractiveNpmLogin w 0"
    "runInteractiveNpmLogin w 1"
    "run w t = (reached_auth w t @
                  [IsNpmAuthenticated False, Console Log NpmNotAuthenticatedRunningLogin,
                   RunInteractiveNpmLogin False, Console Error CouldNotAuthenticateTryAgain,
                   RunInteractiveNpmLogin True,
                   Console Error (CouldNotAuthenticateAfterTries 2)], Inl (Exit 1))"
  | "reaches_tag w t" "\<not> isNpmAuthenticated w" "\<not> runInteractiveNpmLogin w 0"
    "\<not> runInteractiveNpmLogin w 1"
    "run w t = (reached_auth w t @
                  [IsNpmAuthenticated False, Console Log NpmNotAuthenticatedRunningLogin,
                   RunInteractiveNpmLogin False, Console Error CouldNotAuthenticateTryAgain,
                   RunInteractiveNpmLogin False, Console Error CouldNotAuthenticateTryAgain,
                   Console Error (CouldNotAuthenticateAfterTries 2)], Inl (Exit 1))"
  | "reaches_confirm w t" "\<not> confirmAnswer w releaseNowQuestion"
    "run w t = (reached_confirm w t @
                  [PromptConfirm releaseNowQuestion False,
                   Console Log Blank, Console Log AbortingPublish], Inl (Exit 0))"
  | "reaches_publish w t" "\<exists>p\<in>set (releasePackages w). publishFails w t p"
    "run w t = (reached_publish w t @
                  fst (publishEach w t (npmDistTagOf w t) (releasePackages w)),
                Inl (Exit 1))"
  | "reaches_publish w t" "\<forall>p\<in>set (releasePackages w). \<not> publishFails w t p"
    "run w t = (reached_publish w t @
                  fst (publishEach w t (npmDistTagOf w t) (releasePackages w)) @
                  farewell w t, Inr ())"
proof (cases "reaches_title w t")
  case False
  then show ?thesis
    using that(1,2) run_dirty [of w t] run_no_checkout [of w t]
    unfolding reaches_title_def by blast
next
  case title: True
  show ?thesis
  proof (cases "reaches_prompt w t")
    case False
    then show ?thesis
      using title that(3,4) run_no_bump [of w t] run_diverged [of w t]
      unfolding reaches_prompt_def by blast
  next
    case prompt: True
    show ?thesis
    proof (cases "reaches_build w t")
      case False
      then show ?thesis
        using prompt that(5) run_declined_next [of w t]
        unfolding reaches_build_def by blast
    next
      case build: True
      show ?thesis
      proof (cases "reaches_check w t")
        case False
        then show ?thesis
          using build that(6,7) run_clean_fails [of w t] run_build_fails [of w t]
          unfolding reaches_check_def by blast
      next
        case check: True
        show ?thesis
        proof (cases "reaches_tag w t")
          case False
          then show ?thesis
            using check that(8) run_invalid [of w t]
            unfolding reaches_tag_def by blast
        next
          case tag: True
          show ?thesis
          proof (cases "reaches_confirm w t")
            case False
            then show ?thesis
              using tag that(9,10) run_login_late [of w t] run_login_exhausted [of w t]
              unfolding reaches_confirm_def by blast
          next
            case confirm: True
            show ?thesis
            proof (cases "reaches_publish w t")
              case False
              then show ?thesis
                using confirm that(11) run_declined_release [of w t]
                unfolding reaches_publish_def by blast
            next
              case True
              then show ?thesis
                using that(12,13) run_publish_fails [of w t] run_success [of w t]
                by blast
            qed
          qed
        qed
      qed
    qed
  qed
qed

subsection \<open>The entry point\<close>


lemma main_unparsed:
  "manifestVersion w = Some ver \<Longrightarrow> parseVersionName w ver = None \<Longrightarrow>
   main w = ([ReadFileSync (manifestPath w),
              Console Error (CannotParseCurrentVersion ver)],
             Inl (Exit 1))"
  by (simp add: main_def new_PublishReleaseTask_def step_simps rootDir_def
      manifestPath_def manifestVersion_def)


subsection \<open>What the steps record\<close>

lemma questions_differ: "stableToNextQuestion \<noteq> releaseNowQuestion"
  by (simp add: stableToNextQuestion_def releaseNowQuestion_def)

lemma calls_append: "calls (xs @ ys) = calls xs @ calls ys"
  by (simp add: calls_def)

lemma fst_publishEach_events:
  "ev \<in> set (fst (publishEach w t tag ps)) \<Longrightarrow> isConsole ev \<or> isRunNpmPublish ev"
  by (induction ps)
    (auto simp: publishPackageToNpm_def step_simps prepend_def split: if_splits)

subsection \<open>Evaluating the concrete run\<close>

lemmas scenario_simps =
  scenario_def scenarioTask_def entryTask_def release5_def rootDir_def manifestPath_def
  manifestVersion_def versionBumpPattern_def stableToNextQuestion_def releaseNowQuestion_def

section \<open>The claims\<close>

subsection \<open>Authentication\<close>

text \<open>
  Claim C1: when \<^verbatim>\<open>isNpmAuthenticated()\<close> returns false, \<^verbatim>\<open>checkNpmAuthentication\<close> makes at
  most 2 login attempts, proceeds when the first or the second succeeds, and exits with
  code 1 only after both fail. The code does not do that when the first attempt fails and
  the second succeeds: \<^verbatim>\<open>failedAuthentication\<close> was set by the first attempt and is never
  reset, so the method reports "Could not authenticate after 2 tries" and calls
  \<^verbatim>\<open>process.exit(1)\<close> although the user is logged in. The theorem runs the method in the
  scenario of the spec with an unauthenticated client whose second login succeeds.
\<close>

theorem second_login_success_still_exits:
  "checkNpmAuthentication
     (scenario\<lparr> isNpmAuthenticated := False, runInteractiveNpmLogin := (\<lambda>i. i = 1) \<rparr>) =
     ([IsNpmAuthenticated False, Console Log NpmNotAuthenticatedRunningLogin,
       RunInteractiveNpmLogin False, Console Error CouldNotAuthenticateTryAgain,
       RunInteractiveNpmLogin True,
       Console Error (CouldNotAuthenticateAfterTries 2)], Inl (Exit 1))"
  by (simp add: checkNpmAuthentication_eq)

subsection \<open>The manifest version\<close>

text \<open>
  Claim C6: for every manifest version that \<^verbatim>\<open>parseVersionName\<close> does not parse, the process
  exits (with code 1) in the constructor, before any mutating action: the only call made
  is the read of \<^verbatim>\<open>package.json\<close>, and no branch switch, build command, tag creation or
  publish call is among the events of the run.
\<close>

theorem unparseable_version_exits_first:
  assumes "manifestVersion w = Some ver" and "parseVersionName w ver = None"
  shows "snd (main w) = Inl (Exit 1)
       \<and> calls (fst (main w)) = [ReadFileSync (manifestPath w)]
       \<and> (\<forall>ev\<in>set (fst (main w)). \<not> isMutating ev)"
  using assms by (simp add: main_unparsed calls_def)

theorem unparseable_version_exits_first_witness:
  "manifestVersion (scenario\<lparr> packageJsonVersion := (\<lambda>path. Some ''5.0'') \<rparr>) = Some ''5.0''
   \<and> parseVersionName (scenario\<lparr> packageJsonVersion := (\<lambda>path. Some ''5.0'') \<rparr>) ''5.0'' =
       None
   \<and> snd (main (scenario\<lparr> packageJsonVersion := (\<lambda>path. Some ''5.0'') \<rparr>)) = Inl (Exit 1)
   \<and> calls (fst (main (scenario\<lparr> packageJsonVersion := (\<lambda>path. Some ''5.0'') \<rparr>))) =
       [ReadFileSync ''/material2/tools/release/../..//package.json'']"
proof -
  let ?w = "scenario\<lparr> packageJsonVersion := (\<lambda>path. Some ''5.0'') \<rparr>"
  have read: "manifestVersion ?w = Some ''5.0''"
    by (simp add: scenario_def manifestVersion_def)
  have unparsed: "parseVersionName ?w ''5.0'' = None"
    by (simp add: scenario_def)
  have path: "manifestPath ?w = ''/material2/tools/release/../..//package.json''"
    by (simp add: scenario_def manifestPath_def rootDir_def)
  show ?thesis
    using unparseable_version_exits_first [OF read unparsed] read unparsed path by simp
qed

subsection \<open>The commit title\<close>

lemma startsWith_iff: "startsWith s pat = (\<exists>rest. s = pat @ rest)"
  by (induction s pat rule: startsWith.induct) auto

lemma regexTest_iff: "regexTest pat s = (\<exists>pre post. s = pre @ pat @ post)"
proof (induction s)
  case Nil
  then show ?case by (auto simp: startsWith_iff)
next
  case (Cons c cs)
  show ?case
  proof
    assume "regexTest pat (c # cs)"
    then consider "startsWith (c # cs) pat" | "regexTest pat cs" by auto
    then show "\<exists>pre post. c # cs = pre @ pat @ post"
    proof cases
      case 1
      then obtain rest where "c # cs = pat @ rest" by (auto simp: startsWith_iff)
      then have "c # cs = [] @ pat @ rest" by simp
      then show ?thesis by blast
    next
      case 2
      then obtain pre post where "cs = pre @ pat @ post" using Cons.IH by auto
      then have "c # cs = (c # pre) @ pat @ post" by simp
      then show ?thesis by blast
    qed
  next
    assume "\<exists>pre post. c # cs = pre @ pat @ post"
    then obtain pre post where eq: "c # cs = pre @ pat @ post" by blast
    show "regexTest pat (c # cs)"
    proof (cases pre)
      case Nil
      then have "startsWith (c # cs) pat" using eq by (auto simp: startsWith_iff)
      then show ?thesis by simp
    next
      case (Cons d pre')
      then have "cs = pre' @ pat @ post" using eq by simp
      then have "regexTest pat cs" using Cons.IH by blast
      then show ?thesis by simp
    qed
  qed
qed

text \<open>
  Claim C9: the version-bump pattern is an unanchored substring test. The test succeeds
  exactly for the titles that contain the characters "chore: bump version" somewhere, and
  \<^verbatim>\<open>verifyLastCommitVersionBump\<close> accepts every such title, whatever stands before and
  after the characters.
\<close>

theorem version_bump_pattern_is_unanchored:
  "regexTest versionBumpPattern title =
     (\<exists>pre post. title = pre @ ''chore: bump version'' @ post)
   \<and> (getCommitTitle w ''HEAD'' = pre @ ''chore: bump version'' @ post \<longrightarrow>
        verifyLastCommitVersionBump w =
          ([GetCommitTitle ''HEAD'' (pre @ ''chore: bump version'' @ post)], Inr ()))"
proof (intro conjI impI)
  show "regexTest versionBumpPattern title =
          (\<exists>pre post. title = pre @ ''chore: bump version'' @ post)"
    by (simp only: regexTest_iff versionBumpPattern_def)
next
  assume title: "getCommitTitle w ''HEAD'' = pre @ ''chore: bump version'' @ post"
  have "regexTest versionBumpPattern (pre @ ''chore: bump version'' @ post)"
    unfolding regexTest_iff versionBumpPattern_def by blast
  then show "verifyLastCommitVersionBump w =
               ([GetCommitTitle ''HEAD'' (pre @ ''chore: bump version'' @ post)], Inr ())"
    by (simp add: verifyLastCommitVersionBump_def step_simps title)
qed

theorem version_bump_pattern_is_unanchored_witness:
  \<open>regexTest versionBumpPattern ''Revert "chore: bump version to 5.0.0"''
   \<and> regexTest versionBumpPattern ''wip chore: bump version''
   \<and> verifyLastCommitVersionBump
       (scenario\<lparr> getCommitTitle := (\<lambda>ref. ''Revert "chore: bump version to 5.0.0"'') \<rparr>) =
       ([GetCommitTitle ''HEAD'' ''Revert "chore: bump version to 5.0.0"''], Inr ())\<close>
proof -
  let ?w = \<open>scenario\<lparr> getCommitTitle := (\<lambda>ref. ''Revert "chore: bump version to 5.0.0"'') \<rparr>\<close>
  have t1: \<open>getCommitTitle ?w ''HEAD'' = ''Revert "'' @ ''chore: bump version'' @ '' to 5.0.0"''\<close>
    by (simp add: scenario_def)
  have t2: \<open>''Revert "chore: bump version to 5.0.0"'' = ''Revert "'' @ ''chore: bump version'' @ '' to 5.0.0"''\<close>
    by simp
  have t3: "''wip chore: bump version'' = ''wip '' @ ''chore: bump version'' @ []"
    by simp
  from version_bump_pattern_is_unanchored
         [of \<open>''Revert "chore: bump version to 5.0.0"''\<close> ?w \<open>''Revert "''\<close> \<open>'' to 5.0.0"''\<close>]
       version_bump_pattern_is_unanchored [of "''wip chore: bump version''" ?w "[]" "[]"]
  show ?thesis using t1 t2 t3 by (metis (no_types, lifting))
qed

subsection \<open>Output validation\<close>

lemma reached_check_events:
  "ev \<in> set (reached_check w t) \<Longrightarrow>
   \<not> isCheckReleasePackage ev \<and> \<not> isCreateTag ev \<and> \<not> isReleaseStep ev \<and> \<not> isRunNpmPublish ev"
  by (auto simp: reach_defs questions_differ split: if_splits)

lemma checkCall_events:
  "ev \<in> set (map (checkCall w t) ps) \<Longrightarrow>
   isCheckReleasePackage ev \<and> \<not> isCreateTag ev \<and> \<not> isReleaseStep ev \<and> \<not> isRunNpmPublish ev
   \<and> \<not> isConsole ev \<and> \<not> isExecSync ev"
  by (auto simp: checkCall_def)

lemma reached_tag_checks:
  "reaches_tag w t \<Longrightarrow> CheckReleasePackage out p False \<notin> set (reached_tag w t)"
  by (auto simp: reach_defs list_all_iff split: if_splits)

lemma reached_publish_checks:
  "reaches_tag w t \<Longrightarrow> CheckReleasePackage out p False \<notin> set (reached_publish w t)"
  using reached_tag_checks [of w t out p]
  by (auto simp: reached_publish_def reached_confirm_def reached_auth_def)

text \<open>
  Claim C3: in every run in which \<^verbatim>\<open>checkReleasePackage\<close> returns false for a package, the
  process exits with code 1 in the output-validation step, after the check has been
  evaluated for every package of \<^verbatim>\<open>releasePackages\<close> (the run ends with the calls for the
  whole list, in order, and the error line), and \<^verbatim>\<open>runNpmPublish\<close> is not called.
\<close>

theorem failed_validation_publishes_nothing:
  assumes "CheckReleasePackage out p False \<in> set (fst (run w t))"
  shows "snd (run w t) = Inl (Exit 1)
       \<and> (\<exists>pre. fst (run w t) =
                  pre @ map (checkCall w t) (releasePackages w) @
                    [Console Error ReleaseOutputFailsValidation]
                \<and> (\<forall>ev\<in>set pre. \<not> isCheckReleasePackage ev))
       \<and> (\<forall>ev\<in>set (fst (run w t)). \<not> isRunNpmPublish ev)"
proof (cases rule: run_cases [of w t])
  case invalid
  have "fst (run w t) = reached_check w t @ map (checkCall w t) (releasePackages w) @
          [Console Error ReleaseOutputFailsValidation]
        \<and> (\<forall>ev\<in>set (reached_check w t). \<not> isCheckReleasePackage ev)"
    using invalid(3) reached_check_events [of _ w t] by simp
  then have "\<exists>pre. fst (run w t) = pre @ map (checkCall w t) (releasePackages w) @
          [Console Error ReleaseOutputFailsValidation]
        \<and> (\<forall>ev\<in>set pre. \<not> isCheckReleasePackage ev)" by blast
  moreover have "\<forall>ev\<in>set (fst (run w t)). \<not> isRunNpmPublish ev"
    using invalid(3) reached_check_events [of _ w t] checkCall_events [of _ w t]
    by auto
  ultimately show ?thesis using invalid(3) by simp
next
  case login_late
  then show ?thesis using assms reached_tag_checks [of w t out p]
    by (simp add: reached_auth_def)
next
  case login_exhausted
  then show ?thesis using assms reached_tag_checks [of w t out p]
    by (simp add: reached_auth_def)
next
  case declined_release
  then show ?thesis using assms reached_tag_checks [of w t out p]
    by (auto simp add: reached_auth_def reached_confirm_def reaches_confirm_def
        split: if_splits)
next
  case publish_fails
  then show ?thesis
    using assms reached_publish_checks [of w t out p]
      fst_publishEach_events [of "CheckReleasePackage out p False" w t]
    by (auto simp: reaches_publish_def reaches_confirm_def)
next
  case success
  then show ?thesis
    using assms reached_publish_checks [of w t out p]
      fst_publishEach_events [of "CheckReleasePackage out p False" w t]
    by (auto simp: reaches_publish_def reaches_confirm_def farewell_def)
qed (use assms in \<open>auto simp: reach_defs split: if_splits\<close>)

theorem failed_validation_publishes_nothing_witness:
  "CheckReleasePackage ''/material2/tools/release/../..//dist/releases'' ''material'' False
     \<in> set (fst (run (scenario\<lparr> checkReleasePackage := (\<lambda>out p. p \<noteq> ''material'') \<rparr>)
                 scenarioTask))
   \<and> snd (run (scenario\<lparr> checkReleasePackage := (\<lambda>out p. p \<noteq> ''material'') \<rparr>)
            scenarioTask) = Inl (Exit 1)
   \<and> filter isRunNpmPublish
        (fst (run (scenario\<lparr> checkReleasePackage := (\<lambda>out p. p \<noteq> ''material'') \<rparr>)
                scenarioTask)) = []"
proof -
  let ?w = "scenario\<lparr> checkReleasePackage := (\<lambda>out p. p \<noteq> ''material'') \<rparr>"
  have reach: "reaches_check ?w scenarioTask"
    by (simp add: reach_defs scenario_simps)
  have bad: "\<not> list_all (checkReleasePackage ?w (releaseOutputPath scenarioTask))
                (releasePackages ?w)"
    by (simp add: scenario_simps)
  have hyp: "CheckReleasePackage ''/material2/tools/release/../..//dist/releases''
               ''material'' False \<in> set (fst (run ?w scenarioTask))"
    unfolding run_invalid [OF reach bad] by (simp add: checkCall_def scenario_simps)
  from failed_validation_publishes_nothing [OF hyp] show ?thesis
    using hyp by (simp add: filter_empty_conv)
qed

subsection \<open>The commit title in a run\<close>

lemma run_title_event:
  assumes "GetCommitTitle ref title \<in> set (fst (run w t))"
  shows "ref = ''HEAD'' \<and> title = getCommitTitle w ''HEAD'' \<and> reaches_title w t"
proof (cases rule: run_cases [of w t])
  case publish_fails
  then show ?thesis
    using assms fst_publishEach_events [of "GetCommitTitle ref title" w t]
    by (auto simp: reach_defs split: if_splits)
next
  case success
  then show ?thesis
    using assms fst_publishEach_events [of "GetCommitTitle ref title" w t]
    by (auto simp: reach_defs split: if_splits)
qed (use assms in \<open>auto simp: reach_defs split: if_splits\<close>)

lemma reached_title_events:
  "ev \<in> set (reached_title w t) \<Longrightarrow> \<not> isExecSync ev"
  by (auto simp: reach_defs)

text \<open>
  Claim C5: the commit-title verification passes if and only if the title returned by
  \<^verbatim>\<open>getCommitTitle('HEAD')\<close> matches the version-bump pattern; for a title that does not
  match, the method prints the guidance to use the staging script and exits with code 1,
  and a run in which that happens never calls the build commands.
\<close>

theorem commit_title_check:
  "(snd (verifyLastCommitVersionBump w) = Inr ()) =
     regexTest versionBumpPattern (getCommitTitle w ''HEAD'')
   \<and> (\<not> regexTest versionBumpPattern (getCommitTitle w ''HEAD'') \<longrightarrow>
        verifyLastCommitVersionBump w =
          ([GetCommitTitle ''HEAD'' (getCommitTitle w ''HEAD''),
            Console Error LastCommitNotVersionBump,
            Console Error PleaseUseStagingScript], Inl (Exit 1)))
   \<and> (GetCommitTitle ''HEAD'' title \<in> set (fst (run w t))
        \<and> \<not> regexTest versionBumpPattern title \<longrightarrow>
        snd (run w t) = Inl (Exit 1)
        \<and> Console Error PleaseUseStagingScript \<in> set (fst (run w t))
        \<and> (\<forall>ev\<in>set (fst (run w t)). \<not> isExecSync ev))"
proof (intro conjI impI)
  show "(snd (verifyLastCommitVersionBump w) = Inr ()) =
          regexTest versionBumpPattern (getCommitTitle w ''HEAD'')"
    by (simp add: verifyLastCommitVersionBump_def step_simps)
next
  assume "\<not> regexTest versionBumpPattern (getCommitTitle w ''HEAD'')"
  then show "verifyLastCommitVersionBump w =
          ([GetCommitTitle ''HEAD'' (getCommitTitle w ''HEAD''),
            Console Error LastCommitNotVersionBump,
            Console Error PleaseUseStagingScript], Inl (Exit 1))"
    by (simp add: verifyLastCommitVersionBump_def step_simps)
next
  assume h: "GetCommitTitle ''HEAD'' title \<in> set (fst (run w t))
             \<and> \<not> regexTest versionBumpPattern title"
  then have title: "title = getCommitTitle w ''HEAD''" and reach: "reaches_title w t"
    using run_title_event [of "''HEAD''" title w t] by simp_all
  have eq: "run w t = (reached_title w t @
                [GetCommitTitle ''HEAD'' (getCommitTitle w ''HEAD''),
                 Console Error LastCommitNotVersionBump,
                 Console Error PleaseUseStagingScript], Inl (Exit 1))"
    using run_no_bump [OF reach] h title by simp
  show "snd (run w t) = Inl (Exit 1)" by (simp add: eq)
  show "Console Error PleaseUseStagingScript \<in> set (fst (run w t))" by (simp add: eq)
  show "\<forall>ev\<in>set (fst (run w t)). \<not> isExecSync ev"
    using reached_title_events [of _ w t] by (auto simp: eq)
qed

theorem commit_title_check_witness:
  "GetCommitTitle ''HEAD'' ''fix: typo''
     \<in> set (fst (run (scenario\<lparr> getCommitTitle := (\<lambda>ref. ''fix: typo'') \<rparr>) scenarioTask))
   \<and> \<not> regexTest versionBumpPattern ''fix: typo''
   \<and> snd (run (scenario\<lparr> getCommitTitle := (\<lambda>ref. ''fix: typo'') \<rparr>) scenarioTask) =
       Inl (Exit 1)
   \<and> filter isExecSync
       (fst (run (scenario\<lparr> getCommitTitle := (\<lambda>ref. ''fix: typo'') \<rparr>) scenarioTask)) = []
   \<and> snd (verifyLastCommitVersionBump scenario) = Inr ()"
proof -
  let ?w = "scenario\<lparr> getCommitTitle := (\<lambda>ref. ''fix: typo'') \<rparr>"
  have reach: "reaches_title ?w scenarioTask"
    by (simp add: reach_defs scenario_simps)
  have bad: "\<not> regexTest versionBumpPattern (getCommitTitle ?w ''HEAD'')"
    by (simp add: scenario_simps)
  have bad': "\<not> regexTest versionBumpPattern ''fix: typo''"
    by (simp add: scenario_simps)
  have hyp: "GetCommitTitle ''HEAD'' ''fix: typo'' \<in> set (fst (run ?w scenarioTask))"
    unfolding run_no_bump [OF reach bad] by (simp add: scenario_simps)
  have good: "regexTest versionBumpPattern (getCommitTitle scenario ''HEAD'')"
    by (simp add: scenario_simps)
  from commit_title_check [of ?w "''fix: typo''" scenarioTask]
    commit_title_check [of scenario "''fix: typo''" scenarioTask]
  show ?thesis
    using hyp bad' good by (simp add: filter_empty_conv)
qed

subsection \<open>The publish loop\<close>

lemma uptoFirst_prefix: "\<exists>rest. xs = uptoFirst P xs @ rest"
  by (induction xs) auto

lemma uptoFirst_none: "\<forall>x\<in>set xs. \<not> P x \<Longrightarrow> uptoFirst P xs = xs"
  by (induction xs) auto

lemma uptoFirst_some:
  "\<exists>x\<in>set xs. P x \<Longrightarrow>
   uptoFirst P xs \<noteq> [] \<and> P (last (uptoFirst P xs))
   \<and> (\<forall>x\<in>set (butlast (uptoFirst P xs)). \<not> P x)"
  by (induction xs) auto

lemma calls_publishEach_uptoFirst:
  "calls (fst (publishEach w t (npmDistTagOf w t) ps)) =
     map (publishCall w t) (uptoFirst (publishFails w t) ps)"
  by (induction ps)
    (simp_all add: publishPackageToNpm_def step_simps prepend_def calls_def
      publishCall_def publishFails_def)

lemma reached_confirm_events:
  "ev \<in> set (reached_confirm w t) \<Longrightarrow>
   \<not> isRunNpmPublish ev \<and> ev \<noteq> PromptConfirm releaseNowQuestion True"
  by (auto simp: reach_defs questions_differ split: if_splits)

lemma run_release_confirmed:
  assumes "PromptConfirm releaseNowQuestion True \<in> set (fst (run w t))"
  shows "reaches_publish w t"
proof (cases rule: run_cases [of w t])
  case declined_release
  then show ?thesis using assms reached_confirm_events [of _ w t] by auto
qed (use assms in \<open>auto simp: reach_defs questions_differ [symmetric] split: if_splits\<close>)

lemma calls_Nil: "calls [] = []"
  by (simp add: calls_def)

lemma calls_Cons: "calls (ev # evs) = (if isConsole ev then calls evs else ev # calls evs)"
  by (simp add: calls_def)

lemmas calls_simps = calls_Nil calls_Cons calls_append

lemma calls_farewell: "calls (farewell w t) = []"
  by (simp add: calls_def farewell_def)

text \<open>
  Claim C2: in every run that reaches the publish phase (the final confirmation was
  answered with yes), the calls of \<^verbatim>\<open>runNpmPublish\<close> are made for a prefix of
  \<^verbatim>\<open>releasePackages\<close>, in the order of the list, and they are the last calls of the run. If
  every call returns empty error output the prefix is the whole list and \<^verbatim>\<open>run\<close> returns;
  otherwise the prefix ends at the first package whose call returns non-empty error
  output, and the process exits with code 1: no later package is published and no other
  call (so no rollback of the packages already published) follows.
\<close>

theorem publish_stops_at_first_error:
  assumes "PromptConfirm releaseNowQuestion True \<in> set (fst (run w t))"
  shows "(\<exists>pre. calls (fst (run w t)) =
                  pre @ PromptConfirm releaseNowQuestion True #
                    map (publishCall w t)
                      (uptoFirst (publishFails w t) (releasePackages w))
               \<and> (\<forall>ev\<in>set pre. \<not> isRunNpmPublish ev))
       \<and> (\<exists>rest. releasePackages w =
                    uptoFirst (publishFails w t) (releasePackages w) @ rest)
       \<and> ((\<forall>p\<in>set (releasePackages w). \<not> publishFails w t p) \<longrightarrow>
            uptoFirst (publishFails w t) (releasePackages w) = releasePackages w
            \<and> snd (run w t) = Inr ())
       \<and> ((\<exists>p\<in>set (releasePackages w). publishFails w t p) \<longrightarrow>
            publishFails w t (last (uptoFirst (publishFails w t) (releasePackages w)))
            \<and> (\<forall>p\<in>set (butlast (uptoFirst (publishFails w t) (releasePackages w))).
                  \<not> publishFails w t p)
            \<and> snd (run w t) = Inl (Exit 1))"
proof -
  have reach: "reaches_publish w t"
    using assms by (rule run_release_confirmed)
  have calls_eq:
    "calls (fst (run w t)) =
       calls (reached_confirm w t) @ PromptConfirm releaseNowQuestion True #
         map (publishCall w t) (uptoFirst (publishFails w t) (releasePackages w))"
  proof (cases "\<exists>p\<in>set (releasePackages w). publishFails w t p")
    case True
    show ?thesis
      unfolding run_publish_fails [OF reach True]
      by (simp add: calls_simps calls_publishEach_uptoFirst reached_publish_def)
  next
    case False
    then have ok: "\<forall>p\<in>set (releasePackages w). \<not> publishFails w t p" by simp
    show ?thesis
      unfolding run_success [OF reach ok]
      by (simp add: calls_simps calls_publishEach_uptoFirst reached_publish_def
          calls_farewell)
  qed
  have "\<forall>ev\<in>set (calls (reached_confirm w t)). \<not> isRunNpmPublish ev"
    using reached_confirm_events [of _ w t] by (auto simp: calls_def)
  with calls_eq have first:
    "\<exists>pre. calls (fst (run w t)) =
              pre @ PromptConfirm releaseNowQuestion True #
                map (publishCall w t) (uptoFirst (publishFails w t) (releasePackages w))
           \<and> (\<forall>ev\<in>set pre. \<not> isRunNpmPublish ev)"
    by blast
  have all_ok: "snd (run w t) = Inr ()"
    if "\<forall>p\<in>set (releasePackages w). \<not> publishFails w t p"
    using run_success [OF reach that] by simp
  have one_bad: "snd (run w t) = Inl (Exit 1)"
    if "\<exists>p\<in>set (releasePackages w). publishFails w t p"
    using run_publish_fails [OF reach that] by simp
  show ?thesis
    using first all_ok one_bad
      uptoFirst_prefix [of "releasePackages w" "publishFails w t"]
      uptoFirst_none [of "releasePackages w" "publishFails w t"]
      uptoFirst_some [of "releasePackages w" "publishFails w t"]
    by blast
qed


theorem publish_stops_at_first_error_witness:
  "PromptConfirm releaseNowQuestion True
     \<in> set (fst (run (scenario\<lparr> runNpmPublish :=
                 (\<lambda>path tag. if path = ''/material2/tools/release/../..//dist/releases/material''
                              then Some ''E403'' else None) \<rparr>) scenarioTask))
   \<and> filter isRunNpmPublish
       (fst (run (scenario\<lparr> runNpmPublish :=
                 (\<lambda>path tag. if path = ''/material2/tools/release/../..//dist/releases/material''
                              then Some ''E403'' else None) \<rparr>) scenarioTask)) =
       [RunNpmPublish ''/material2/tools/release/../..//dist/releases/cdk'' ''latest'' None,
        RunNpmPublish ''/material2/tools/release/../..//dist/releases/material'' ''latest''
          (Some ''E403'')]
   \<and> snd (run (scenario\<lparr> runNpmPublish :=
                 (\<lambda>path tag. if path = ''/material2/tools/release/../..//dist/releases/material''
                              then Some ''E403'' else None) \<rparr>) scenarioTask) = Inl (Exit 1)"
proof -
  let ?w = "scenario\<lparr> runNpmPublish :=
                 (\<lambda>path tag. if path = ''/material2/tools/release/../..//dist/releases/material''
                              then Some ''E403'' else None) \<rparr>"
  have reach: "reaches_publish ?w scenarioTask"
    by (simp add: reach_defs scenario_simps)
  have bad: "\<exists>p\<in>set (releasePackages ?w). publishFails ?w scenarioTask p"
    by (simp add: publishFails_def npmDistTagOf_def scenario_simps)
  have hyp: "PromptConfirm releaseNowQuestion True \<in> set (fst (run ?w scenarioTask))"
    unfolding run_publish_fails [OF reach bad] by (simp add: reached_publish_def)
  have upto: "uptoFirst (publishFails ?w scenarioTask) (releasePackages ?w) =
                [''cdk'', ''material'']"
    by (simp add: publishFails_def npmDistTagOf_def scenario_simps)
  have published: "map (publishCall ?w scenarioTask) [''cdk'', ''material''] =
       [RunNpmPublish ''/material2/tools/release/../..//dist/releases/cdk'' ''latest'' None,
        RunNpmPublish ''/material2/tools/release/../..//dist/releases/material'' ''latest''
          (Some ''E403'')]"
    by (simp add: publishCall_def npmDistTagOf_def scenario_simps)
  have filter_calls: "filter isRunNpmPublish (calls tr) = filter isRunNpmPublish tr" for tr
    by (induction tr) (auto simp: calls_simps elim: isRunNpmPublish.elims)
  from publish_stops_at_first_error [OF hyp]
  obtain pre where
    calls_eq: "calls (fst (run ?w scenarioTask)) =
       pre @ PromptConfirm releaseNowQuestion True #
         map (publishCall ?w scenarioTask)
           (uptoFirst (publishFails ?w scenarioTask) (releasePackages ?w))"
    and pre: "\<forall>ev\<in>set pre. \<not> isRunNpmPublish ev"
    and exit: "snd (run ?w scenarioTask) = Inl (Exit 1)"
    using bad by blast
  have "filter isRunNpmPublish (fst (run ?w scenarioTask)) =
          filter isRunNpmPublish (calls (fst (run ?w scenarioTask)))"
    by (simp add: filter_calls)
  also have "\<dots> = map (publishCall ?w scenarioTask) [''cdk'', ''material'']"
    unfolding calls_eq upto using pre by (simp add: publishCall_def filter_empty_conv)
  finally show ?thesis using hyp exit published by simp
qed

subsection \<open>The dist tag\<close>

lemma reached_prompt_events:
  "ev \<in> set (reached_prompt w t) \<Longrightarrow>
   \<not> isExecSync ev \<and> ev \<noteq> PromptForNpmDistTag v tag \<and> ev \<noteq> PromptConfirm q a"
  by (auto simp: reach_defs)

lemma run_dist_tag_event:
  assumes "PromptForNpmDistTag v tag \<in> set (fst (run w t))"
  shows "reaches_prompt w t \<and> v = currentVersion t \<and> tag = npmDistTagOf w t"
proof (cases rule: run_cases [of w t])
  case publish_fails
  then show ?thesis
    using assms fst_publishEach_events [of "PromptForNpmDistTag v tag" w t]
    by (auto simp: reach_defs split: if_splits)
next
  case success
  then show ?thesis
    using assms fst_publishEach_events [of "PromptForNpmDistTag v tag" w t]
    by (auto simp: reach_defs split: if_splits)
qed (use assms in \<open>auto simp: reach_defs split: if_splits\<close>)

lemmas later_reaches =
  reaches_check_def reaches_tag_def reaches_confirm_def reaches_publish_def

lemma run_from_build:
  assumes "reaches_build w t"
  shows "\<exists>post. fst (run w t) =
           reached_build w t @
             ExecSync ''gulp clean'' (binDir w t) (execSync w ''gulp clean'' (binDir w t)) #
             post
         \<and> (\<forall>ev\<in>set post. ev \<noteq> PromptConfirm stableToNextQuestion a)"
proof (cases rule: run_cases [of w t])
  case clean_fails
  then show ?thesis by simp
next
  case build_fails
  then show ?thesis by simp
next
  case invalid
  then show ?thesis
    by (auto simp: later_reaches reached_check_def checkCall_def)
next
  case login_late
  then show ?thesis
    by (auto simp: later_reaches reached_check_def reached_tag_def reached_auth_def checkCall_def)
next
  case login_exhausted
  then show ?thesis
    by (auto simp: later_reaches reached_check_def reached_tag_def reached_auth_def checkCall_def)
next
  case declined_release
  then show ?thesis
    by (auto simp: later_reaches reached_check_def reached_tag_def reached_auth_def reached_confirm_def
        checkCall_def questions_differ questions_differ [symmetric])
next
  case publish_fails
  then show ?thesis
    using fst_publishEach_events [of "PromptConfirm stableToNextQuestion a" w t]
    by (auto simp: later_reaches reached_check_def reached_tag_def reached_auth_def reached_confirm_def
        reached_publish_def checkCall_def questions_differ questions_differ [symmetric])
next
  case success
  then show ?thesis
    using fst_publishEach_events [of "PromptConfirm stableToNextQuestion a" w t]
    by (auto simp: later_reaches reached_check_def reached_tag_def reached_auth_def reached_confirm_def
        reached_publish_def checkCall_def questions_differ questions_differ [symmetric] farewell_def)
qed (use assms in \<open>auto simp: reaches_build_def reaches_prompt_def reaches_title_def\<close>)


lemma calls_reached_build:
  "calls (reached_build w t) =
     calls (reached_prompt w t) @
       PromptForNpmDistTag (currentVersion t) (npmDistTagOf w t) #
       (if asksStableToNext w t then [PromptConfirm stableToNextQuestion True] else [])"
  by (simp add: reached_build_def calls_simps)

lemma calls_reached_prompt_events:
  "ev \<in> set (calls (reached_prompt w t)) \<Longrightarrow> \<not> isExecSync ev"
  using reached_prompt_events [of ev w t] by (simp add: calls_def)

text \<open>
  Claim C4: when the prompted dist tag is "next" and the version has no pre-release label
  (its label is \<^verbatim>\<open>null\<close>, or falsy at all), the call that follows the dist-tag prompt is the
  yes/no confirmation, and no build command precedes it. Answered with no, it is the last
  call of the run and the process exits with code 0; answered with yes, the next call is
  the first build command, \<^verbatim>\<open>gulp clean\<close>.
\<close>

theorem stable_version_to_next_tag_is_confirmed:
  assumes "PromptForNpmDistTag v ''next'' \<in> set (fst (run w t))"
      and "\<not> truthy (prereleaseLabel (currentVersion t))"
  shows "\<exists>pre post.
           calls (fst (run w t)) =
             pre @ PromptForNpmDistTag (currentVersion t) ''next'' #
               PromptConfirm stableToNextQuestion (confirmAnswer w stableToNextQuestion) #
               post
         \<and> (\<forall>ev\<in>set pre. \<not> isExecSync ev)
         \<and> (if confirmAnswer w stableToNextQuestion
            then take 1 post =
                   [ExecSync ''gulp clean'' (binDir w t)
                      (execSync w ''gulp clean'' (binDir w t))]
            else post = [] \<and> snd (run w t) = Inl (Exit 0))"
proof -
  from run_dist_tag_event [OF assms(1)]
  have prompt: "reaches_prompt w t" and tag: "npmDistTagOf w t = ''next''"
    by simp_all
  have asks: "asksStableToNext w t"
    using tag assms(2) by (simp add: asksStableToNext_def)
  have pre: "\<forall>ev\<in>set (calls (reached_prompt w t)). \<not> isExecSync ev"
    using calls_reached_prompt_events [of _ w t] by blast
  show ?thesis
  proof (cases "confirmAnswer w stableToNextQuestion")
    case False
    have "calls (fst (run w t)) =
            calls (reached_prompt w t) @ PromptForNpmDistTag (currentVersion t) ''next'' #
              PromptConfirm stableToNextQuestion (confirmAnswer w stableToNextQuestion) # []"
      unfolding run_declined_next [OF prompt asks False] using False
      by (simp add: calls_simps)
    moreover have "snd (run w t) = Inl (Exit 0)"
      unfolding run_declined_next [OF prompt asks False] by simp
    ultimately show ?thesis using pre False by force
  next
    case True
    then have build: "reaches_build w t"
      using prompt by (simp add: reaches_build_def)
    from run_from_build [OF build] obtain post where
      "fst (run w t) =
         reached_build w t @
           ExecSync ''gulp clean'' (binDir w t) (execSync w ''gulp clean'' (binDir w t)) #
           post"
      by blast
    then have "calls (fst (run w t)) =
            calls (reached_prompt w t) @ PromptForNpmDistTag (currentVersion t) ''next'' #
              PromptConfirm stableToNextQuestion (confirmAnswer w stableToNextQuestion) #
              (ExecSync ''gulp clean'' (binDir w t) (execSync w ''gulp clean'' (binDir w t)) #
               calls post)"
      using True asks tag by (simp add: calls_simps calls_reached_build)
    then show ?thesis using pre True by force
  qed
qed


theorem stable_version_to_next_tag_is_confirmed_witness:
  "PromptForNpmDistTag release5 ''next''
     \<in> set (fst (run (scenario\<lparr> distTagAnswer := (\<lambda>v. ''next''),
                                 confirmAnswer := (\<lambda>question. False) \<rparr>) scenarioTask))
   \<and> \<not> truthy (prereleaseLabel (currentVersion scenarioTask))
   \<and> snd (run (scenario\<lparr> distTagAnswer := (\<lambda>v. ''next''),
                          confirmAnswer := (\<lambda>question. False) \<rparr>) scenarioTask) =
       Inl (Exit 0)"
proof -
  let ?w = "scenario\<lparr> distTagAnswer := (\<lambda>v. ''next''),
                      confirmAnswer := (\<lambda>question. False) \<rparr>"
  have reach: "reaches_prompt ?w scenarioTask"
    by (simp add: reach_defs scenario_simps)
  have asks: "asksStableToNext ?w scenarioTask"
    by (simp add: asksStableToNext_def npmDistTagOf_def scenario_simps)
  have no: "\<not> confirmAnswer ?w stableToNextQuestion"
    by (simp add: scenario_def)
  have stable: "\<not> truthy (prereleaseLabel (currentVersion scenarioTask))"
    by (simp add: scenario_simps)
  have hyp: "PromptForNpmDistTag release5 ''next'' \<in> set (fst (run ?w scenarioTask))"
    unfolding run_declined_next [OF reach asks no]
    by (simp add: scenarioTask_def entryTask_def)
  from stable_version_to_next_tag_is_confirmed [OF hyp stable]
  show ?thesis using hyp stable no by auto
qed

lemma run_stable_prompt_event:
  assumes "PromptConfirm stableToNextQuestion a \<in> set (fst (run w t))"
  shows "reaches_prompt w t \<and> asksStableToNext w t"
proof (cases rule: run_cases [of w t])
  case publish_fails
  then show ?thesis
    using assms fst_publishEach_events [of "PromptConfirm stableToNextQuestion a" w t]
    by (auto simp: reaches_title_def reaches_prompt_def reaches_build_def later_reaches
        reached_title_def reached_prompt_def reached_build_def reached_check_def
        reached_tag_def reached_auth_def reached_confirm_def reached_publish_def
        banner_def checkCall_def questions_differ questions_differ [symmetric]
        split: if_splits)
next
  case success
  then show ?thesis
    using assms fst_publishEach_events [of "PromptConfirm stableToNextQuestion a" w t]
    by (auto simp: reaches_title_def reaches_prompt_def reaches_build_def later_reaches
        reached_title_def reached_prompt_def reached_build_def reached_check_def
        reached_tag_def reached_auth_def reached_confirm_def reached_publish_def
        banner_def checkCall_def farewell_def questions_differ questions_differ [symmetric]
        split: if_splits)
qed (use assms in \<open>auto simp: reaches_title_def reaches_prompt_def reaches_build_def
        later_reaches reached_title_def reached_prompt_def reached_build_def
        reached_check_def reached_tag_def reached_auth_def reached_confirm_def
        reached_publish_def banner_def checkCall_def questions_differ
        questions_differ [symmetric] split: if_splits\<close>)

lemma run_from_prompt:
  assumes "reaches_prompt w t"
  shows "\<exists>post. fst (run w t) =
           reached_prompt w t @
             PromptForNpmDistTag (currentVersion t) (npmDistTagOf w t) #
             (if asksStableToNext w t
              then [PromptConfirm stableToNextQuestion (confirmAnswer w stableToNextQuestion)]
              else []) @ post"
proof (cases "reaches_build w t")
  case True
  from run_from_build [OF True] obtain post where
    "fst (run w t) =
       reached_build w t @
         ExecSync ''gulp clean'' (binDir w t) (execSync w ''gulp clean'' (binDir w t)) # post"
    by blast
  then show ?thesis
    using True by (auto simp: reached_build_def reaches_build_def)
next
  case False
  then have asks: "asksStableToNext w t" and no: "\<not> confirmAnswer w stableToNextQuestion"
    using assms by (auto simp: reaches_build_def)
  show ?thesis
    unfolding run_declined_next [OF assms asks no]
    using asks no by (simp add: asksStableToNext_def)
qed

text \<open>
  Claim C10: the extra confirmation is asked for only when the dist tag is exactly "next"
  and the pre-release label of the version is absent (falsy): a run contains the prompt if
  and only if it contains the dist-tag prompt answered with "next" and the label is
  falsy. In every other run that gets to the dist-tag prompt (a pre-release version, or
  any other tag), the call that follows the dist-tag prompt is the first build command.
\<close>

theorem extra_confirmation_only_for_stable_to_next:
  "(\<exists>a. PromptConfirm stableToNextQuestion a \<in> set (fst (run w t))) =
     (PromptForNpmDistTag (currentVersion t) ''next'' \<in> set (fst (run w t))
      \<and> \<not> truthy (prereleaseLabel (currentVersion t)))
   \<and> (PromptForNpmDistTag v tag \<in> set (fst (run w t))
        \<and> \<not> (tag = ''next'' \<and> \<not> truthy (prereleaseLabel (currentVersion t))) \<longrightarrow>
        (\<exists>pre post.
           calls (fst (run w t)) =
             pre @ PromptForNpmDistTag v tag #
               ExecSync ''gulp clean'' (binDir w t)
                 (execSync w ''gulp clean'' (binDir w t)) # post))"
proof -
  have asked:
    "(\<exists>a. PromptConfirm stableToNextQuestion a \<in> set (fst (run w t))) =
       (PromptForNpmDistTag (currentVersion t) ''next'' \<in> set (fst (run w t))
        \<and> \<not> truthy (prereleaseLabel (currentVersion t)))"
  proof (rule iffI)
    assume "\<exists>a. PromptConfirm stableToNextQuestion a \<in> set (fst (run w t))"
    then obtain a where "PromptConfirm stableToNextQuestion a \<in> set (fst (run w t))"
      by blast
    then have prompt: "reaches_prompt w t" and asks: "asksStableToNext w t"
      using run_stable_prompt_event [of a w t] by simp_all
    from run_from_prompt [OF prompt]
    have "PromptForNpmDistTag (currentVersion t) (npmDistTagOf w t) \<in> set (fst (run w t))"
      by auto
    then show "PromptForNpmDistTag (currentVersion t) ''next'' \<in> set (fst (run w t))
               \<and> \<not> truthy (prereleaseLabel (currentVersion t))"
      using asks by (simp add: asksStableToNext_def)
  next
    assume h: "PromptForNpmDistTag (currentVersion t) ''next'' \<in> set (fst (run w t))
               \<and> \<not> truthy (prereleaseLabel (currentVersion t))"
    then have prompt: "reaches_prompt w t" and tag: "npmDistTagOf w t = ''next''"
      using run_dist_tag_event [of "currentVersion t" "''next''" w t] by simp_all
    then have asks: "asksStableToNext w t"
      using h by (simp add: asksStableToNext_def)
    from run_from_prompt [OF prompt]
    have "PromptConfirm stableToNextQuestion (confirmAnswer w stableToNextQuestion)
            \<in> set (fst (run w t))"
      using asks by auto
    then show "\<exists>a. PromptConfirm stableToNextQuestion a \<in> set (fst (run w t))"
      by blast
  qed
  have direct:
    "PromptForNpmDistTag v tag \<in> set (fst (run w t))
       \<and> \<not> (tag = ''next'' \<and> \<not> truthy (prereleaseLabel (currentVersion t))) \<longrightarrow>
     (\<exists>pre post.
        calls (fst (run w t)) =
          pre @ PromptForNpmDistTag v tag #
            ExecSync ''gulp clean'' (binDir w t)
              (execSync w ''gulp clean'' (binDir w t)) # post)"
  proof (rule impI)
    assume h: "PromptForNpmDistTag v tag \<in> set (fst (run w t))
               \<and> \<not> (tag = ''next'' \<and> \<not> truthy (prereleaseLabel (currentVersion t)))"
    then have prompt: "reaches_prompt w t" and v: "v = currentVersion t"
      and tag: "tag = npmDistTagOf w t"
      using run_dist_tag_event [of v tag w t] by simp_all
    have no_ask: "\<not> asksStableToNext w t"
      using h tag by (simp add: asksStableToNext_def)
    then have build: "reaches_build w t"
      using prompt by (simp add: reaches_build_def)
    from run_from_build [OF build] obtain post where
      "fst (run w t) =
         reached_build w t @
           ExecSync ''gulp clean'' (binDir w t) (execSync w ''gulp clean'' (binDir w t)) #
           post"
      by blast
    then have "calls (fst (run w t)) =
         calls (reached_prompt w t) @ PromptForNpmDistTag v tag #
           ExecSync ''gulp clean'' (binDir w t) (execSync w ''gulp clean'' (binDir w t)) #
           calls post"
      using no_ask v tag by (simp add: calls_simps calls_reached_build)
    then show "\<exists>pre post.
             calls (fst (run w t)) =
               pre @ PromptForNpmDistTag v tag #
                 ExecSync ''gulp clean'' (binDir w t)
                   (execSync w ''gulp clean'' (binDir w t)) # post"
      by blast
  qed
  show ?thesis by (rule conjI [OF asked direct])
qed


theorem extra_confirmation_only_for_stable_to_next_witness:
  "PromptForNpmDistTag release5 ''latest'' \<in> set (fst (run scenario scenarioTask))
   \<and> PromptConfirm stableToNextQuestion True \<notin> set (fst (run scenario scenarioTask))
   \<and> PromptConfirm stableToNextQuestion True
       \<notin> set (fst (run (scenario\<lparr> distTagAnswer := (\<lambda>v. ''next'') \<rparr>)
                   (scenarioTask\<lparr> currentVersion :=
                      release5\<lparr> prereleaseLabel := Some ''rc'' \<rparr> \<rparr>)))"
proof -
  let ?w = "scenario\<lparr> distTagAnswer := (\<lambda>v. ''next'') \<rparr>"
  let ?t = "scenarioTask\<lparr> currentVersion := release5\<lparr> prereleaseLabel := Some ''rc'' \<rparr> \<rparr>"
  have reach: "reaches_prompt scenario scenarioTask"
    by (simp add: reach_defs scenario_simps)
  have tag: "npmDistTagOf scenario scenarioTask = ''latest''"
    and version: "currentVersion scenarioTask = release5"
    by (simp_all add: npmDistTagOf_def scenario_simps)
  from run_from_prompt [OF reach]
  have hyp: "PromptForNpmDistTag release5 ''latest'' \<in> set (fst (run scenario scenarioTask))"
    using tag version by auto
  have other: "PromptForNpmDistTag release5 ''next'' \<notin> set (fst (run scenario scenarioTask))"
    using run_dist_tag_event [of release5 "''next''" scenario scenarioTask] tag by auto
  have label: "truthy (prereleaseLabel (currentVersion ?t))"
    by (simp add: scenario_simps)
  from extra_confirmation_only_for_stable_to_next
         [of scenario scenarioTask release5 "''latest''"]
       extra_confirmation_only_for_stable_to_next [of ?w ?t release5 "''latest''"]
  show ?thesis using hyp other label version by auto
qed

subsection \<open>The release tag\<close>

lemmas all_reaches =
  reaches_title_def reaches_prompt_def reaches_build_def later_reaches

lemma reached_tag_events:
  "ev \<in> set (reached_tag w t) \<Longrightarrow>
   \<not> isCreateTag ev \<and> \<not> isReleaseStep ev"
  using reached_check_events [of ev w t] checkCall_events [of ev w t "releasePackages w"]
  by (auto simp: reached_tag_def)

lemma run_before_tag:
  assumes "\<not> reaches_tag w t" and "ev \<in> set (fst (run w t))"
  shows "\<not> isCreateTag ev \<and> \<not> isReleaseStep ev
         \<and> ev \<noteq> Console Info ReleaseOutputPassedValidation"
proof (cases rule: run_cases [of w t])
  case invalid
  then show ?thesis
    using assms(2) reached_check_events [of ev w t]
      checkCall_events [of ev w t "releasePackages w"]
    by (auto simp: reach_defs split: if_splits)
qed (use assms in \<open>auto simp: reach_defs questions_differ split: if_splits\<close>)

lemma fst_publishEach_release:
  assumes "ev \<in> set (fst (publishEach w t tag ps))"
  shows "(isConsole ev \<or> isReleaseStep ev) \<and> \<not> isCreateTag ev"
  using fst_publishEach_events [OF assms] by (cases ev) auto

lemma run_after_tag:
  assumes "reaches_tag w t"
  shows "\<exists>post. fst (run w t) =
           reached_tag w t @ CreateTag ''HEAD'' (format w (currentVersion t)) [] # post
         \<and> (\<forall>ev\<in>set post. (isConsole ev \<or> isReleaseStep ev) \<and> \<not> isCreateTag ev)"
proof (cases rule: run_cases [of w t])
  case login_late
  then show ?thesis by (simp add: reached_auth_def)
next
  case login_exhausted
  then show ?thesis by (simp add: reached_auth_def)
next
  case declined_release
  then show ?thesis by (simp add: reached_auth_def reached_confirm_def)
next
  case publish_fails
  have "\<forall>ev\<in>set (fst (publishEach w t (npmDistTagOf w t) (releasePackages w))).
          (isConsole ev \<or> isReleaseStep ev) \<and> \<not> isCreateTag ev"
    using fst_publishEach_release [of _ w t] by blast
  then show ?thesis
    using publish_fails(3)
    by (simp add: reached_auth_def reached_confirm_def reached_publish_def)
next
  case success
  have "\<forall>ev\<in>set (fst (publishEach w t (npmDistTagOf w t) (releasePackages w))).
          (isConsole ev \<or> isReleaseStep ev) \<and> \<not> isCreateTag ev"
    using fst_publishEach_release [of _ w t] by blast
  then show ?thesis
    using success(3)
    by (simp add: reached_auth_def reached_confirm_def reached_publish_def farewell_def)
qed (use assms in \<open>auto simp: all_reaches\<close>)

lemma validation_passed_iff:
  "(Console Info ReleaseOutputPassedValidation \<in> set (fst (run w t))) = reaches_tag w t"
proof
  assume "Console Info ReleaseOutputPassedValidation \<in> set (fst (run w t))"
  then show "reaches_tag w t"
    using run_before_tag [of w t "Console Info ReleaseOutputPassedValidation"] by blast
next
  assume "reaches_tag w t"
  from run_after_tag [OF this] show
    "Console Info ReleaseOutputPassedValidation \<in> set (fst (run w t))"
    by (auto simp: reached_tag_def)
qed

text \<open>
  Claim C8: the release tag is created with the name \<^verbatim>\<open>currentVersion.format()\<close> at \<^verbatim>\<open>HEAD\<close>,
  exactly once, and before the authentication check, the final confirmation prompt and
  every publish call; whatever happens after it (authentication exhausted, confirmation
  declined, a publish error), the run performs nothing but console output, the
  authentication calls, the final prompt and publish calls, so the tag is never removed.
  A run creates the tag exactly when the output validation passed; a run that ends before
  creates no tag and performs none of these steps.
\<close>

theorem tag_created_once_before_release:
  "(Console Info ReleaseOutputPassedValidation \<in> set (fst (run w t)) \<longrightarrow>
      (\<exists>pre post.
         fst (run w t) =
           pre @ CreateTag ''HEAD'' (format w (currentVersion t)) [] # post
         \<and> (\<forall>ev\<in>set pre. \<not> isCreateTag ev \<and> \<not> isReleaseStep ev)
         \<and> (\<forall>ev\<in>set post. (isConsole ev \<or> isReleaseStep ev) \<and> \<not> isCreateTag ev)))
   \<and> (Console Info ReleaseOutputPassedValidation \<notin> set (fst (run w t)) \<longrightarrow>
        (\<forall>ev\<in>set (fst (run w t)). \<not> isCreateTag ev \<and> \<not> isReleaseStep ev))"
proof (cases "reaches_tag w t")
  case True
  from run_after_tag [OF True] obtain post where
    "fst (run w t) =
       reached_tag w t @ CreateTag ''HEAD'' (format w (currentVersion t)) [] # post"
    and "\<forall>ev\<in>set post. (isConsole ev \<or> isReleaseStep ev) \<and> \<not> isCreateTag ev"
    by blast
  moreover have "\<forall>ev\<in>set (reached_tag w t). \<not> isCreateTag ev \<and> \<not> isReleaseStep ev"
    using reached_tag_events [of _ w t] by blast
  ultimately have
    "\<exists>pre post.
       fst (run w t) = pre @ CreateTag ''HEAD'' (format w (currentVersion t)) [] # post
       \<and> (\<forall>ev\<in>set pre. \<not> isCreateTag ev \<and> \<not> isReleaseStep ev)
       \<and> (\<forall>ev\<in>set post. (isConsole ev \<or> isReleaseStep ev) \<and> \<not> isCreateTag ev)"
    by blast
  then show ?thesis
    using True by (simp add: validation_passed_iff)
next
  case False
  then have "\<forall>ev\<in>set (fst (run w t)). \<not> isCreateTag ev \<and> \<not> isReleaseStep ev"
    using run_before_tag [of w t] by blast
  then show ?thesis
    using False by (simp add: validation_passed_iff)
qed


theorem tag_created_once_before_release_witness:
  "Console Info ReleaseOutputPassedValidation
     \<in> set (fst (run (scenario\<lparr> confirmAnswer := (\<lambda>question. False) \<rparr>) scenarioTask))
   \<and> filter isCreateTag
       (fst (run (scenario\<lparr> confirmAnswer := (\<lambda>question. False) \<rparr>) scenarioTask)) =
       [CreateTag ''HEAD'' ''5.0.0'' []]
   \<and> snd (run (scenario\<lparr> confirmAnswer := (\<lambda>question. False) \<rparr>) scenarioTask) =
       Inl (Exit 0)"
proof -
  let ?w = "scenario\<lparr> confirmAnswer := (\<lambda>question. False) \<rparr>"
  have reach: "reaches_confirm ?w scenarioTask"
    by (simp add: reach_defs scenario_simps)
  have no: "\<not> confirmAnswer ?w releaseNowQuestion"
    by (simp add: scenario_def)
  have exit: "snd (run ?w scenarioTask) = Inl (Exit 0)"
    unfolding run_declined_release [OF reach no] by simp
  have hyp: "Console Info ReleaseOutputPassedValidation \<in> set (fst (run ?w scenarioTask))"
    using reach by (simp add: validation_passed_iff reaches_confirm_def)
  have name: "format ?w (currentVersion scenarioTask) = ''5.0.0''"
    by (simp add: scenario_def)
  from tag_created_once_before_release [of ?w scenarioTask] hyp
  obtain pre post where
    "fst (run ?w scenarioTask) =
       pre @ CreateTag ''HEAD'' (format ?w (currentVersion scenarioTask)) [] # post"
    and "\<forall>ev\<in>set pre. \<not> isCreateTag ev \<and> \<not> isReleaseStep ev"
    and "\<forall>ev\<in>set post. (isConsole ev \<or> isReleaseStep ev) \<and> \<not> isCreateTag ev"
    by blast
  then have "filter isCreateTag (fst (run ?w scenarioTask)) =
               [CreateTag ''HEAD'' (format ?w (currentVersion scenarioTask)) []]"
    by (simp add: filter_empty_conv)
  then show ?thesis using hyp exit name by simp
qed

subsection \<open>Exit codes\<close>


































end
